theory Spec2Isabelle
  imports Complex_Main "HOL-Library.Word"
begin

section \<open>Text rasterizer of pepr3d (src/geometry/FontRasterizer.cpp)\<close>

text \<open>
  The rasterizer turns a string into one triangle list per character. It calls three
  libraries whose code is not part of the repository: FreeType (the face, its glyph slot,
  kerning), a Vectoriser/Contour class (flattened outlines, direction flag, inside test) and
  poly2tri (constrained Delaunay triangulation). Their results are parameters of the model:
  a face is a record of the functions the rasterizer calls on it.

  Numbers: a \<open>float\<close> or \<open>double\<close> coordinate is a real. The single-precision addition
  \<open>y += addToZero\<close> of \<open>outlinePostprocess\<close> rounds its sum to the nearest \<open>float\<close>
  (\<open>float_round\<close> below); comparisons, \<open>abs\<close> and the negation of y are exact in floating
  point as they are here; the divisions by 64, the addition of the offset and the casts to
  \<open>float\<close> when a triangle is written are taken without rounding. \<open>FT_Pos\<close> (a signed long) is
  \<open>int\<close>; \<open>v >> 6\<close> on it is the arithmetic shift, \<open>v div 64\<close> (rounding down).
  \<open>FT_UInt\<close> glyph indices are \<open>nat\<close>. \<open>abs\<close> in \<open>outlinePostprocess\<close> is taken on the
  float value.
\<close>

subsection \<open>Data\<close>

text \<open>glm::vec3 and the struct Tri (fields x, y, z and a, b, c in the source).\<close>

record vec3 =
  vec_x :: real
  vec_y :: real
  vec_z :: real

record Tri =
  tri_a :: vec3
  tri_b :: vec3
  tri_c :: vec3

text \<open>A p2t::Point, and a triangle of the triangulator (GetPoint(0), GetPoint(1), GetPoint(2)).\<close>

type_synonym Point = "real \<times> real"
type_synonym p2t_Triangle = "Point \<times> Point \<times> Point"

text \<open>A Contour of the Vectoriser: PointCount()/GetPoint(p) and GetDirection().\<close>

record Contour =
  GetPoints :: "Point list"
  GetDirection :: bool

text \<open>
  The two library operations on contours and polylines: \<open>sm->IsInside(contour)\<close>, and the
  sequence \<open>new CDT(polyline)\<close>, \<open>AddHole\<close> for every hole, \<open>Triangulate()\<close>,
  \<open>GetTriangles()\<close>.
\<close>

record External =
  IsInside :: "Contour \<Rightarrow> Contour \<Rightarrow> bool"
  Triangulate :: "Point list \<Rightarrow> Point list list \<Rightarrow> p2t_Triangle list"

text \<open>
  \<open>face->glyph\<close> after \<open>FT_Load_Glyph\<close>: the format test of line 99, the metrics the
  rasterizer reads, and the contours \<open>Vectoriser(face->glyph, steps)\<close> builds from the outline.
\<close>

record FT_GlyphSlot =
  format_is_outline :: bool
  lsb_delta :: int
  rsb_delta :: int
  advance_x :: int
  Vectoriser :: "16 word \<Rightarrow> Contour list"

record FT_Face =
  FT_Get_Char_Index :: "char \<Rightarrow> nat"
  FT_Load_Glyph :: "nat \<Rightarrow> FT_GlyphSlot"
  FT_HAS_KERNING :: bool
  FT_Get_Kerning :: "nat \<Rightarrow> nat \<Rightarrow> int"

text \<open>
  \<open>mFace\<close> before \<open>FT_Set_Char_Size(mFace, w, h, 96, 96)\<close>: the call fixes the size the
  later glyph loads use.
\<close>

type_synonym Font = "64 word \<Rightarrow> 64 word \<Rightarrow> nat \<Rightarrow> nat \<Rightarrow> FT_Face"

text \<open>The function-local statics of \<open>addOneCharacter\<close> (lines 86-87); they start at 0.\<close>

record statics =
  prevCharIndex :: nat
  curCharIndex :: nat
  prev_rsb_delta :: int

definition statics0 :: statics where
  "statics0 = \<lparr>prevCharIndex = 0, curCharIndex = 0, prev_rsb_delta = 0\<rparr>"

text \<open>
  Lines 99-102: \<open>printf("Invalid Glyph Format\n"); exit(0);\<close> ends the process with the
  given status; control does not come back to the caller of \<open>rasterizeText\<close>. The
  rasterizer has no other way out than returning: it throws nothing and returns no error code.
\<close>

datatype error = ProcessExit int

text \<open>
  What the host environment is told at the end of the process: \<open>exit(0)\<close> reports a
  successful termination, a status other than 0 a failure.
\<close>

definition exit_reports_failure :: "error \<Rightarrow> bool" where
  "exit_reports_failure e = (case e of ProcessExit status \<Rightarrow> status \<noteq> 0)"

subsection \<open>outlinePostprocess (lines 24-50)\<close>

definition FLT_MAX :: real where
  "FLT_MAX = (2 ^ 24 - 1) * 2 ^ 104"

definition min_step :: "real \<Rightarrow> Tri \<Rightarrow> real" where
  "min_step m t =
     (let m = (if m > vec_y (tri_a t) then vec_y (tri_a t) else m);
          m = (if m > vec_y (tri_b t) then vec_y (tri_b t) else m);
          m = (if m > vec_y (tri_c t) then vec_y (tri_c t) else m)
      in m)"

definition find_min :: "Tri list list \<Rightarrow> real" where
  "find_min trianglesPerLetter =
     foldl (\<lambda>m letterTriangles. foldl min_step m letterTriangles) FLT_MAX trianglesPerLetter"

text \<open>
  The \<open>float\<close> nearest to a real, ties to the even significand (IEEE 754 binary32, 24
  significant bits, exponents from -126 to 127, subnormals included): the exponent of the
  binade of \<open>\<bar>x\<bar>\<close>, found from 127 downwards; the spacing of the floats in that binade;
  \<open>x\<close> rounded to a multiple of the spacing. A sum beyond \<open>FLT_MAX\<close>, which the machine
  turns into an infinity, is not represented.
\<close>

definition round_even :: "real \<Rightarrow> int" where
  "round_even r =
     (let f = \<lfloor>r\<rfloor>; d = r - of_int f
      in if d < 1 / 2 then f else if 1 / 2 < d then f + 1 else if even f then f else f + 1)"

fun float_exponent_from :: "nat \<Rightarrow> real \<Rightarrow> int" where
  "float_exponent_from 0 a = - 126"
| "float_exponent_from (Suc n) a =
     (if 2 powi (int (Suc n) - 126) \<le> a then int (Suc n) - 126 else float_exponent_from n a)"

definition float_exponent :: "real \<Rightarrow> int" where
  "float_exponent a = float_exponent_from 253 a"

definition float_round :: "real \<Rightarrow> real" where
  "float_round x =
     (let ulp = 2 powi (float_exponent \<bar>x\<bar> - 23)
      in of_int (round_even (x / ulp)) * ulp)"

text \<open>Lines 46-48: \<open>t.a.y += addToZero\<close> and the same for \<open>b\<close> and \<open>c\<close>, on floats.\<close>

definition shift_tri :: "real \<Rightarrow> Tri \<Rightarrow> Tri" where
  "shift_tri addToZero t =
     \<lparr>tri_a = (tri_a t)\<lparr>vec_y := float_round (vec_y (tri_a t) + addToZero)\<rparr>,
      tri_b = (tri_b t)\<lparr>vec_y := float_round (vec_y (tri_b t) + addToZero)\<rparr>,
      tri_c = (tri_c t)\<lparr>vec_y := float_round (vec_y (tri_c t) + addToZero)\<rparr>\<rparr>"

definition outlinePostprocess :: "Tri list list \<Rightarrow> Tri list list" where
  "outlinePostprocess trianglesPerLetter =
     (let addToZero = \<bar>find_min trianglesPerLetter\<bar>
      in map (map (shift_tri addToZero)) trianglesPerLetter)"

subsection \<open>triangulateContour (lines 73-81)\<close>

text \<open>
  Callers pass an index below \<open>ContourCount()\<close> only (the loops of lines 121 and 143).
\<close>

definition triangulateContour :: "Contour list \<Rightarrow> nat \<Rightarrow> real \<Rightarrow> Point list" where
  "triangulateContour vectoriser c offset =
     map (\<lambda>d. (fst d / 64 + offset, snd d / 64)) (GetPoints (vectoriser ! c))"

subsection \<open>addOneCharacter (lines 83-182)\<close>

text \<open>Lines 155-166: one output triangle from one triangle of the triangulator.\<close>

definition emitTri :: "p2t_Triangle \<Rightarrow> Tri" where
  "emitTri ot =
     (case ot of (p0, p1, p2) \<Rightarrow>
       \<lparr>tri_a = \<lparr>vec_x = fst p0, vec_y = - snd p0, vec_z = 0\<rparr>,
        tri_b = \<lparr>vec_x = fst p1, vec_y = - snd p1, vec_z = 0\<rparr>,
        tri_c = \<lparr>vec_x = fst p2, vec_y = - snd p2, vec_z = 0\<rparr>\<rparr>)"

text \<open>Lines 143-150: the contours added as holes to the triangulation of contour \<open>c\<close>.\<close>

definition holesOf :: "External \<Rightarrow> Contour list \<Rightarrow> nat \<Rightarrow> nat list" where
  "holesOf ext vectoriser c =
     filter (\<lambda>cm. c \<noteq> cm \<and> \<not> GetDirection (vectoriser ! cm)
                  \<and> IsInside ext (vectoriser ! cm) (vectoriser ! c))
            [0..<length vectoriser]"

text \<open>Lines 138-172: the body of the loop over the contours, for contour \<open>c\<close>.\<close>

definition contourTriangles :: "External \<Rightarrow> Contour list \<Rightarrow> real \<Rightarrow> nat \<Rightarrow> Tri list" where
  "contourTriangles ext vectoriser offset c =
     (if GetDirection (vectoriser ! c) then
        (let polyline = triangulateContour vectoriser c offset;
             holes = map (\<lambda>cm. triangulateContour vectoriser cm offset) (holesOf ext vectoriser c);
             ts = Triangulate ext polyline holes
         in map emitTri ts)
      else [])"

text \<open>
  The result is the new offset, the triangles written to \<open>outTriangles\<close> and the statics
  after the call. A failed \<open>FT_Load_Glyph\<close> or \<open>FT_Get_Glyph\<close> only prints a line and goes on
  with the slot as the library left it.
\<close>

definition addOneCharacter ::
  "External \<Rightarrow> FT_Face \<Rightarrow> char \<Rightarrow> 64 word \<Rightarrow> real \<Rightarrow> statics \<Rightarrow> error + (real \<times> Tri list \<times> statics)" where
  "addOneCharacter ext face ch bezierSteps offset st =
     (let cur = FT_Get_Char_Index face ch;
          st = st\<lparr>curCharIndex := cur\<rparr>;
          glyph = FT_Load_Glyph face cur
      in if \<not> format_is_outline glyph then Inl (ProcessExit 0)
         else
          (let offset = (if FT_HAS_KERNING face \<and> prevCharIndex st \<noteq> 0
                         then offset + real_of_int (FT_Get_Kerning face (prevCharIndex st) cur div 64)
                         else offset);
               offset = (if prev_rsb_delta st - lsb_delta glyph \<ge> 32 then offset - 1
                         else if prev_rsb_delta st - lsb_delta glyph < - 32 then offset + 1
                         else offset);
               st = st\<lparr>prev_rsb_delta := rsb_delta glyph\<rparr>;
               vectoriser = Vectoriser glyph (ucast bezierSteps);
               trianglesLetter =
                 concat (map (contourTriangles ext vectoriser offset) [0..<length vectoriser]);
               st = st\<lparr>prevCharIndex := cur\<rparr>;
               chSize = real_of_int (advance_x glyph div 64)
           in Inr (offset + chSize, trianglesLetter, st)))"

subsection \<open>rasterizeText (lines 5-22)\<close>

text \<open>
  The loop of lines 13-16, from character \<open>i\<close> on: \<open>trianglesPerLetter\<close> grows by one list
  per character, \<open>offset\<close> and the statics are threaded through.
\<close>

fun rasterize_loop ::
  "External \<Rightarrow> FT_Face \<Rightarrow> 64 word \<Rightarrow> string \<Rightarrow> real \<Rightarrow> Tri list list \<Rightarrow> statics
     \<Rightarrow> error + (Tri list list \<times> real \<times> statics)" where
  "rasterize_loop ext face bezierSteps [] offset trianglesPerLetter st =
     Inr (trianglesPerLetter, offset, st)"
| "rasterize_loop ext face bezierSteps (ch # rest) offset trianglesPerLetter st =
     (case addOneCharacter ext face ch bezierSteps offset st of
        Inl e \<Rightarrow> Inl e
      | Inr (offset', outTriangles, st') \<Rightarrow>
          rasterize_loop ext face bezierSteps rest offset' (trianglesPerLetter @ [outTriangles]) st')"

text \<open>The value returned is the triangle lists alone; the statics outlive the call.\<close>

definition rasterizeText ::
  "External \<Rightarrow> Font \<Rightarrow> string \<Rightarrow> 64 word \<Rightarrow> 64 word \<Rightarrow> statics
     \<Rightarrow> error + (Tri list list \<times> statics)" where
  "rasterizeText ext mFace textString fontHeight bezierSteps st =
     (let face = mFace (push_bit 6 fontHeight) (push_bit 6 fontHeight) 96 96
      in case rasterize_loop ext face bezierSteps textString 0 [] st of
           Inl e \<Rightarrow> Inl e
         | Inr (trianglesPerLetter, offset, st') \<Rightarrow>
             Inr (outlinePostprocess trianglesPerLetter, st'))"

subsection \<open>Reading a mesh\<close>

text \<open>The vertices of a mesh in storage order, and their y-coordinates.\<close>

definition tri_vertices :: "Tri \<Rightarrow> vec3 list" where
  "tri_vertices t = [tri_a t, tri_b t, tri_c t]"

definition mesh_vertices :: "Tri list list \<Rightarrow> vec3 list" where
  "mesh_vertices trianglesPerLetter = concat (map tri_vertices (concat trianglesPerLetter))"

definition mesh_ys :: "Tri list list \<Rightarrow> real list" where
  "mesh_ys trianglesPerLetter = map vec_y (mesh_vertices trianglesPerLetter)"

subsection \<open>The layout quantities of one character\<close>

text \<open>
  Names for what \<open>addOneCharacter\<close> computes from the face and the statics before the
  character: the kerning term of lines 107-111, the hinting term of lines 113-116, the advance
  of line 179, the cursor the contours are placed at (the offset after both adjustments),
  the statics it leaves, the contours of its glyph, and the sum of the three terms over a
  string.
\<close>

definition kerning_adjust :: "FT_Face \<Rightarrow> statics \<Rightarrow> char \<Rightarrow> real" where
  "kerning_adjust face st ch =
     (if FT_HAS_KERNING face \<and> prevCharIndex st \<noteq> 0
      then real_of_int (FT_Get_Kerning face (prevCharIndex st) (FT_Get_Char_Index face ch) div 64)
      else 0)"

definition hinting_nudge :: "FT_Face \<Rightarrow> statics \<Rightarrow> char \<Rightarrow> real" where
  "hinting_nudge face st ch =
     (let d = prev_rsb_delta st - lsb_delta (FT_Load_Glyph face (FT_Get_Char_Index face ch))
      in if d \<ge> 32 then - 1 else if d < - 32 then 1 else 0)"

definition advance_width :: "FT_Face \<Rightarrow> char \<Rightarrow> real" where
  "advance_width face ch =
     real_of_int (advance_x (FT_Load_Glyph face (FT_Get_Char_Index face ch)) div 64)"

definition glyph_cursor :: "FT_Face \<Rightarrow> statics \<Rightarrow> char \<Rightarrow> real \<Rightarrow> real" where
  "glyph_cursor face st ch offset = offset + kerning_adjust face st ch + hinting_nudge face st ch"

definition next_statics :: "FT_Face \<Rightarrow> char \<Rightarrow> statics" where
  "next_statics face ch =
     \<lparr>prevCharIndex = FT_Get_Char_Index face ch, curCharIndex = FT_Get_Char_Index face ch,
      prev_rsb_delta = rsb_delta (FT_Load_Glyph face (FT_Get_Char_Index face ch))\<rparr>"

definition glyph_contours :: "FT_Face \<Rightarrow> char \<Rightarrow> 64 word \<Rightarrow> Contour list" where
  "glyph_contours face ch bezierSteps =
     Vectoriser (FT_Load_Glyph face (FT_Get_Char_Index face ch)) (ucast bezierSteps)"

fun total_advance :: "FT_Face \<Rightarrow> statics \<Rightarrow> string \<Rightarrow> real" where
  "total_advance face st [] = 0"
| "total_advance face st (ch # rest) =
     kerning_adjust face st ch + hinting_nudge face st ch + advance_width face ch
       + total_advance face (next_statics face ch) rest"

subsection \<open>Concrete inputs\<close>

text \<open>
  Stand-ins for the libraries, for evaluating the rasterizer on concrete inputs: a fan
  triangulation of the domain; a triangulator stub that returns one degenerate triangle per
  point it is given, domain and holes, so that the output shows what was passed to it; a
  bounding-box inside test. The face maps \<open>A\<close>, \<open>V\<close>, \<open>_\<close>, space, \<open>#\<close>, \<open>@\<close>, \<open>|\<close>
  and \<open>f\<close> to glyphs 1 to 8 and everything else to glyph 0; glyph 3 lies below the
  baseline, glyph 5 is a bitmap, glyph 6 has two nested outer contours around a hole, glyph 7
  has a contour of two points, glyph 8 has side-bearing deltas of 40. The pairs A-V and V-A
  are kerned by one unit; the advance of the space is the parameter of the face. Coordinates
  are in 1/64 units.
\<close>

fun fanCDT :: "Point list \<Rightarrow> Point list list \<Rightarrow> p2t_Triangle list" where
  "fanCDT (p0 # p1 # p2 # rest) holes = (p0, p1, p2) # fanCDT (p0 # p2 # rest) holes"
| "fanCDT polyline holes = []"

definition probeCDT :: "Point list \<Rightarrow> Point list list \<Rightarrow> p2t_Triangle list" where
  "probeCDT polyline holes = map (\<lambda>p. (p, p, p)) (polyline @ concat holes)"

definition boxInside :: "Contour \<Rightarrow> Contour \<Rightarrow> bool" where
  "boxInside s c =
     list_all (\<lambda>p. list_ex (\<lambda>q. fst q \<le> fst p) (GetPoints c)
                 \<and> list_ex (\<lambda>q. fst p \<le> fst q) (GetPoints c)
                 \<and> list_ex (\<lambda>q. snd q \<le> snd p) (GetPoints c)
                 \<and> list_ex (\<lambda>q. snd p \<le> snd q) (GetPoints c)) (GetPoints s)"

definition demoExt :: External where
  "demoExt = \<lparr>IsInside = boxInside, Triangulate = fanCDT\<rparr>"

definition probeExt :: External where
  "probeExt = \<lparr>IsInside = boxInside, Triangulate = probeCDT\<rparr>"

definition outlineGlyph :: "int \<Rightarrow> int \<Rightarrow> int \<Rightarrow> Contour list \<Rightarrow> FT_GlyphSlot" where
  "outlineGlyph adv lsb rsb cs =
     \<lparr>format_is_outline = True, lsb_delta = lsb, rsb_delta = rsb, advance_x = adv,
      Vectoriser = (\<lambda>steps. cs)\<rparr>"

definition bitmapGlyph :: FT_GlyphSlot where
  "bitmapGlyph =
     \<lparr>format_is_outline = False, lsb_delta = 0, rsb_delta = 0, advance_x = 640,
      Vectoriser = (\<lambda>steps. [])\<rparr>"

definition square :: "real \<Rightarrow> real \<Rightarrow> bool \<Rightarrow> Contour" where
  "square lo hi dir =
     \<lparr>GetPoints = [(lo, lo), (hi, lo), (hi, hi), (lo, hi)], GetDirection = dir\<rparr>"

definition demoGlyphs :: "int \<Rightarrow> nat \<Rightarrow> FT_GlyphSlot" where
  "demoGlyphs sp i =
     (if i = 1 then outlineGlyph 640 0 0
        [\<lparr>GetPoints = [(0, 0), (640, 0), (320, 640)], GetDirection = True\<rparr>]
      else if i = 2 then outlineGlyph 640 0 0
        [\<lparr>GetPoints = [(0, 640), (640, 640), (320, 0)], GetDirection = True\<rparr>]
      else if i = 3 then outlineGlyph 640 0 0
        [\<lparr>GetPoints = [(0, - 64), (640, - 64), (640, - 128)], GetDirection = True\<rparr>]
      else if i = 4 then outlineGlyph sp 0 0 []
      else if i = 5 then bitmapGlyph
      else if i = 6 then outlineGlyph 640 0 0
        [square 0 640 True, square 128 512 True, square 256 384 False]
      else if i = 7 then outlineGlyph 640 0 0
        [\<lparr>GetPoints = [(0, 0), (0, 640)], GetDirection = True\<rparr>]
      else if i = 8 then outlineGlyph 640 40 40
        [\<lparr>GetPoints = [(0, 0), (640, 0), (320, 640)], GetDirection = True\<rparr>]
      else outlineGlyph 640 0 0 [])"

definition demoFace :: "int \<Rightarrow> FT_Face" where
  "demoFace sp =
     \<lparr>FT_Get_Char_Index =
        (\<lambda>ch. if ch = CHR ''A'' then 1 else if ch = CHR ''V'' then 2
              else if ch = CHR ''_'' then 3 else if ch = CHR '' '' then 4
              else if ch = CHR ''#'' then 5 else if ch = CHR ''@'' then 6
              else if ch = CHR ''|'' then 7 else if ch = CHR ''f'' then 8 else 0),
      FT_Load_Glyph = demoGlyphs sp,
      FT_HAS_KERNING = True,
      FT_Get_Kerning =
        (\<lambda>l r. if (l = 1 \<and> r = 2) \<or> (l = 2 \<and> r = 1) then - 64 else 0)\<rparr>"

definition demoFont :: "int \<Rightarrow> Font" where
  "demoFont sp = (\<lambda>w h hres vres. demoFace sp)"

definition planar :: "real \<Rightarrow> real \<Rightarrow> real \<Rightarrow> real \<Rightarrow> real \<Rightarrow> real \<Rightarrow> Tri" where
  "planar x1 y1 x2 y2 x3 y3 =
     \<lparr>tri_a = \<lparr>vec_x = x1, vec_y = y1, vec_z = 0\<rparr>,
      tri_b = \<lparr>vec_x = x2, vec_y = y2, vec_z = 0\<rparr>,
      tri_c = \<lparr>vec_x = x3, vec_y = y3, vec_z = 0\<rparr>\<rparr>"

subsection \<open>Area of a contour, and what the triangulator may return\<close>

text \<open>
  The area enclosed by a contour (shoelace formula), for comparing two outer contours; and
  the property of poly2tri that a triangle it returns has its corners among the points of the
  domain and of the holes it was given.
\<close>

fun shoelace :: "Point list \<Rightarrow> real" where
  "shoelace (p # q # rest) = fst p * snd q - fst q * snd p + shoelace (q # rest)"
| "shoelace ps = 0"

definition contour_area :: "Contour \<Rightarrow> real" where
  "contour_area c =
     (case GetPoints c of [] \<Rightarrow> 0 | p # ps \<Rightarrow> \<bar>shoelace (p # ps @ [p])\<bar> / 2)"

definition returns_input_points :: "External \<Rightarrow> bool" where
  "returns_input_points ext \<longleftrightarrow>
     (\<forall>polyline holes p0 p1 p2.
        (p0, p1, p2) \<in> set (Triangulate ext polyline holes)
          \<longrightarrow> {p0, p1, p2} \<subseteq> set polyline \<union> set (concat holes))"

section \<open>Properties\<close>

subsection \<open>Rounding to single precision\<close>

lemma round_even_of_int: "round_even (of_int n) = n"
  by (simp add: round_even_def)

lemma round_even_nonneg: "0 \<le> r \<Longrightarrow> 0 \<le> round_even r"
  by (auto simp: round_even_def Let_def)

lemma round_even_error: "\<bar>of_int (round_even r) - r\<bar> \<le> 1 / 2"
proof -
  have "of_int \<lfloor>r\<rfloor> \<le> r" "r < of_int \<lfloor>r\<rfloor> + 1" by linarith+
  then show ?thesis by (auto simp: round_even_def Let_def)
qed

lemma float_exponent_from_eq:
  assumes "2 powi e \<le> a" "a < 2 powi (e + 1)" "- 126 \<le> e" "e \<le> int n - 126"
  shows "float_exponent_from n a = e"
  using assms(4,3)
proof (induction n)
  case 0
  then show ?case by simp
next
  case (Suc n)
  show ?case
  proof (cases "e = int (Suc n) - 126")
    case True
    with assms(1) show ?thesis by simp
  next
    case False
    with Suc.prems have le: "e \<le> int n - 126" by simp
    then have "e + 1 \<le> int (Suc n) - 126" by simp
    then have "(2::real) powi (e + 1) \<le> 2 powi (int (Suc n) - 126)"
      by (intro power_int_increasing) simp_all
    with assms(2) have "\<not> 2 powi (int (Suc n) - 126) \<le> a" by linarith
    with Suc.IH [OF le Suc.prems(2)] show ?thesis by simp
  qed
qed

lemma float_exponent_eq:
  "2 powi e \<le> a \<Longrightarrow> a < 2 powi (e + 1) \<Longrightarrow> - 126 \<le> e \<Longrightarrow> e \<le> 127 \<Longrightarrow> float_exponent a = e"
  unfolding float_exponent_def by (rule float_exponent_from_eq) simp_all

lemma float_exponent_from_small: "a < 2 powi (- 125) \<Longrightarrow> float_exponent_from n a = - 126"
proof (induction n)
  case 0
  show ?case by simp
next
  case (Suc n)
  have "(2::real) powi (- 125) \<le> 2 powi (int (Suc n) - 126)"
    by (intro power_int_increasing) simp_all
  with Suc.prems have "\<not> 2 powi (int (Suc n) - 126) \<le> a" by linarith
  with Suc show ?case by simp
qed

lemma float_round_0: "float_round 0 = 0"
  by (simp add: float_round_def round_even_def)

lemma float_round_nonneg: "0 \<le> x \<Longrightarrow> 0 \<le> float_round x"
  by (simp add: float_round_def Let_def round_even_nonneg)

lemma float_round_error:
  "\<bar>float_round x - x\<bar> \<le> 2 powi (float_exponent \<bar>x\<bar> - 23) / 2"
proof -
  let ?u = "(2::real) powi (float_exponent \<bar>x\<bar> - 23)"
  have u: "0 < ?u" by simp
  have "float_round x - x = (of_int (round_even (x / ?u)) - x / ?u) * ?u"
    using u by (simp add: float_round_def Let_def field_simps)
  then have "\<bar>float_round x - x\<bar> = \<bar>of_int (round_even (x / ?u)) - x / ?u\<bar> * ?u"
    using u by (simp add: abs_mult)
  also have "\<dots> \<le> (1 / 2) * ?u"
    using u round_even_error [of "x / ?u"] by (intro mult_right_mono) simp_all
  finally show ?thesis by simp
qed

lemma float_round_eval:
  assumes "2 powi e \<le> \<bar>x\<bar>" "\<bar>x\<bar> < 2 powi (e + 1)" "- 126 \<le> e" "e \<le> 127"
  shows "float_round x = of_int (round_even (x / 2 powi (e - 23))) * 2 powi (e - 23)"
  using float_exponent_eq [OF assms] by (simp add: float_round_def Let_def)

lemma round_even_numeral: "round_even (numeral k) = numeral k"
  by (simp add: round_even_def)

lemma float_round_1: "float_round 1 = 1"
  using float_round_eval [of 0 1] by (simp add: round_even_numeral)

lemma float_round_2: "float_round 2 = 2"
  using float_round_eval [of 1 2] by (simp add: round_even_numeral)

lemma float_round_3: "float_round 3 = 3"
  using float_round_eval [of 1 3] by (simp add: round_even_numeral)

lemma float_round_5: "float_round 5 = 5"
  using float_round_eval [of 2 5] by (simp add: round_even_numeral)

lemma float_round_10: "float_round 10 = 10"
  using float_round_eval [of 3 10] by (simp add: round_even_numeral)

lemma float_round_tie: "float_round (1 + 1 / 16777216) = 1"
proof -
  have "float_round (1 + 1 / 16777216)
          = of_int (round_even ((1 + 1 / 16777216) / 2 powi (0 - 23))) * 2 powi (0 - 23)"
    by (rule float_round_eval) simp_all
  moreover have "round_even (8388608 + 1 / 2) = 8388608"
    by (simp add: round_even_def Let_def)
  ultimately show ?thesis by simp
qed

subsection \<open>The minimum found by outlinePostprocess\<close>

lemma min_step_min:
  "min_step m t = min (min (min m (vec_y (tri_a t))) (vec_y (tri_b t))) (vec_y (tri_c t))"
  by (simp add: min_step_def Let_def min_def)

lemma foldl_min_step:
  "foldl min_step m ts = foldl min m (map vec_y (concat (map tri_vertices ts)))"
  by (induction ts arbitrary: m) (simp_all add: min_step_min tri_vertices_def)

lemma foldl_letters:
  "foldl (\<lambda>m letterTriangles. foldl min_step m letterTriangles) m mesh = foldl min_step m (concat mesh)"
  by (induction mesh arbitrary: m) simp_all

lemma find_min_foldl: "find_min mesh = foldl min FLT_MAX (mesh_ys mesh)"
  unfolding find_min_def foldl_letters foldl_min_step mesh_ys_def mesh_vertices_def ..

lemma foldl_min_le_start: "foldl min (m::real) ys \<le> m"
proof (induction ys arbitrary: m)
  case Nil
  show ?case by simp
next
  case (Cons y ys)
  have "foldl min (min m y) ys \<le> min m y" by (rule Cons.IH)
  then show ?case by simp
qed

lemma foldl_min_le_elem: "y \<in> set ys \<Longrightarrow> foldl min (m::real) ys \<le> y"
proof (induction ys arbitrary: m)
  case Nil
  then show ?case by simp
next
  case (Cons z zs)
  show ?case
  proof (cases "y = z")
    case True
    have "foldl min (min m z) zs \<le> min m z" by (rule foldl_min_le_start)
    with True show ?thesis by simp
  next
    case False
    with Cons.prems have "y \<in> set zs" by simp
    then show ?thesis using Cons.IH by simp
  qed
qed

lemma foldl_min_cases: "foldl min (m::real) ys = m \<or> foldl min m ys \<in> set ys"
proof (induction ys arbitrary: m)
  case Nil
  show ?case by simp
next
  case (Cons z zs)
  from Cons.IH [of "min m z"] show ?case by (auto simp: min_def split: if_splits)
qed

lemma FLT_MAX_pos: "0 < FLT_MAX"
  by (simp add: FLT_MAX_def)

lemma find_min_le: "y \<in> set (mesh_ys mesh) \<Longrightarrow> find_min mesh \<le> y"
  by (simp add: find_min_foldl foldl_min_le_elem)

lemma find_min_attained:
  assumes "y \<in> set (mesh_ys mesh)" "y \<le> 0"
  shows "find_min mesh \<in> set (mesh_ys mesh)" "find_min mesh \<le> 0"
proof -
  from assms show le: "find_min mesh \<le> 0" using find_min_le by fastforce
  with FLT_MAX_pos have "find_min mesh \<noteq> FLT_MAX" by simp
  then show "find_min mesh \<in> set (mesh_ys mesh)"
    using foldl_min_cases [of FLT_MAX "mesh_ys mesh"] by (simp add: find_min_foldl)
qed

lemma tri_vertices_shift:
  "map vec_y (tri_vertices (shift_tri k t))
     = map (\<lambda>y. float_round (y + k)) (map vec_y (tri_vertices t))"
  by (simp add: tri_vertices_def shift_tri_def)

lemma mesh_ys_shift:
  "mesh_ys (map (map (shift_tri k)) mesh) = map (\<lambda>y. float_round (y + k)) (mesh_ys mesh)"
  by (induction mesh) (simp_all add: mesh_ys_def mesh_vertices_def map_concat o_def tri_vertices_def shift_tri_def)

lemma mesh_ys_post:
  "mesh_ys (outlinePostprocess mesh)
     = map (\<lambda>y. float_round (y + \<bar>find_min mesh\<bar>)) (mesh_ys mesh)"
  by (simp add: outlinePostprocess_def Let_def mesh_ys_shift)

lemma post_nonneg: "y \<in> set (mesh_ys (outlinePostprocess mesh)) \<Longrightarrow> 0 \<le> y"
proof -
  assume "y \<in> set (mesh_ys (outlinePostprocess mesh))"
  then obtain y0 where y0: "y0 \<in> set (mesh_ys mesh)"
    and y: "y = float_round (y0 + \<bar>find_min mesh\<bar>)"
    by (auto simp: mesh_ys_post)
  from y0 have "find_min mesh \<le> y0" by (rule find_min_le)
  then have "0 \<le> y0 + \<bar>find_min mesh\<bar>" by linarith
  with y show ?thesis by (simp add: float_round_nonneg)
qed

lemma post_zero:
  assumes "y \<in> set (mesh_ys mesh)" "y \<le> 0"
  shows "0 \<in> set (mesh_ys (outlinePostprocess mesh))"
proof -
  from assms have m: "find_min mesh \<in> set (mesh_ys mesh)" and le: "find_min mesh \<le> 0"
    by (rule find_min_attained)+
  from le have "float_round (find_min mesh + \<bar>find_min mesh\<bar>) = 0"
    by (simp add: float_round_0)
  with m show ?thesis unfolding mesh_ys_post by (metis (no_types, lifting) image_eqI set_map)
qed

subsection \<open>One character and the loop over the string\<close>

lemma addOneCharacter_Inr:
  "addOneCharacter ext face ch bezierSteps offset st = Inr (offset', outTriangles, st') \<longleftrightarrow>
     format_is_outline (FT_Load_Glyph face (FT_Get_Char_Index face ch))
     \<and> offset' = glyph_cursor face st ch offset + advance_width face ch
     \<and> outTriangles = concat (map (contourTriangles ext (glyph_contours face ch bezierSteps)
                                      (glyph_cursor face st ch offset))
                                   [0..<length (glyph_contours face ch bezierSteps)])
     \<and> st' = next_statics face ch"
  by (auto simp: addOneCharacter_def Let_def glyph_cursor_def kerning_adjust_def
        hinting_nudge_def advance_width_def next_statics_def glyph_contours_def)

lemma addOneCharacter_Inl:
  "addOneCharacter ext face ch bezierSteps offset st = Inl e \<longleftrightarrow>
     \<not> format_is_outline (FT_Load_Glyph face (FT_Get_Char_Index face ch)) \<and> e = ProcessExit 0"
  by (auto simp: addOneCharacter_def Let_def)

lemma loop_acc:
  "rasterize_loop ext face bezierSteps cs offset acc st =
     (case rasterize_loop ext face bezierSteps cs offset [] st of
        Inl e \<Rightarrow> Inl e
      | Inr (runs, offset', st') \<Rightarrow> Inr (acc @ runs, offset', st'))"
proof (induction cs arbitrary: offset acc st)
  case Nil
  show ?case by simp
next
  case (Cons ch cs)
  show ?case
  proof (cases "addOneCharacter ext face ch bezierSteps offset st")
    case (Inl e)
    then show ?thesis by simp
  next
    case (Inr r)
    obtain o1 t1 s1 where r: "r = (o1, t1, s1)" by (cases r)
    show ?thesis
      using Inr r Cons.IH [of o1 "acc @ [t1]" s1] Cons.IH [of o1 "[t1]" s1]
      by (simp split: sum.splits)
  qed
qed

lemma loop_Cons_Inr:
  "rasterize_loop ext face bezierSteps (ch # cs) offset [] st = Inr (runs, offset', st') \<longleftrightarrow>
     (\<exists>o1 t1 s1 rest. addOneCharacter ext face ch bezierSteps offset st = Inr (o1, t1, s1)
        \<and> rasterize_loop ext face bezierSteps cs o1 [] s1 = Inr (rest, offset', st')
        \<and> runs = t1 # rest)"
proof (cases "addOneCharacter ext face ch bezierSteps offset st")
  case (Inl e)
  then show ?thesis by simp
next
  case (Inr r)
  obtain o1 t1 s1 where r: "r = (o1, t1, s1)" by (cases r)
  show ?thesis
    using Inr r loop_acc [of ext face bezierSteps cs o1 "[t1]" s1]
    by (auto split: sum.splits)
qed

lemma loop_length:
  "rasterize_loop ext face bezierSteps cs offset [] st = Inr (runs, offset', st')
     \<Longrightarrow> length runs = length cs"
proof (induction cs arbitrary: offset st runs)
  case Nil
  then show ?case by simp
next
  case (Cons ch cs)
  then show ?case unfolding loop_Cons_Inr by auto
qed

lemma loop_total_advance:
  "rasterize_loop ext face bezierSteps cs offset [] st = Inr (runs, offset', st')
     \<Longrightarrow> offset' = offset + total_advance face st cs"
proof (induction cs arbitrary: offset st runs)
  case Nil
  then show ?case by simp
next
  case (Cons ch cs)
  from Cons.prems obtain o1 t1 s1 rest where
    a: "addOneCharacter ext face ch bezierSteps offset st = Inr (o1, t1, s1)" and
    l: "rasterize_loop ext face bezierSteps cs o1 [] s1 = Inr (rest, offset', st')"
    unfolding loop_Cons_Inr by blast
  from a have o1: "o1 = glyph_cursor face st ch offset + advance_width face ch"
    and s1: "s1 = next_statics face ch" by (simp_all add: addOneCharacter_Inr)
  from Cons.IH [OF l] have "offset' = o1 + total_advance face s1 cs" .
  with o1 s1 show ?case by (simp add: glyph_cursor_def)
qed

lemma loop_append:
  "rasterize_loop ext face bezierSteps (xs @ ys) offset [] st =
     (case rasterize_loop ext face bezierSteps xs offset [] st of
        Inl e \<Rightarrow> Inl e
      | Inr (pre, o1, s1) \<Rightarrow>
          (case rasterize_loop ext face bezierSteps ys o1 [] s1 of
             Inl e \<Rightarrow> Inl e
           | Inr (post, o2, s2) \<Rightarrow> Inr (pre @ post, o2, s2)))"
proof (induction xs arbitrary: offset st)
  case Nil
  show ?case by (simp split: sum.splits)
next
  case (Cons ch xs)
  show ?case
  proof (cases "addOneCharacter ext face ch bezierSteps offset st")
    case (Inl e)
    then show ?thesis by simp
  next
    case (Inr r)
    obtain o1 t1 s1 where r: "r = (o1, t1, s1)" by (cases r)
    show ?thesis
      using Inr r Cons.IH [of o1 s1]
        loop_acc [of ext face bezierSteps "xs @ ys" o1 "[t1]" s1]
        loop_acc [of ext face bezierSteps xs o1 "[t1]" s1]
      by (simp split: sum.splits)
  qed
qed

lemma loop_nth:
  assumes "rasterize_loop ext face bezierSteps cs 0 [] st = Inr (runs, offset', st')"
    and "i < length cs"
  shows "\<exists>pre o_i s_i o_i' s_i'.
           rasterize_loop ext face bezierSteps (take i cs) 0 [] st = Inr (pre, o_i, s_i)
         \<and> addOneCharacter ext face (cs ! i) bezierSteps o_i s_i = Inr (o_i', runs ! i, s_i')"
proof -
  from assms(2) have cs: "cs = take i cs @ (cs ! i) # drop (Suc i) cs"
    by (simp add: id_take_nth_drop)
  from assms(1) have
    "rasterize_loop ext face bezierSteps (take i cs @ (cs ! i) # drop (Suc i) cs) 0 [] st
       = Inr (runs, offset', st')" using cs by simp
  then obtain pre o_i s_i post where
    p: "rasterize_loop ext face bezierSteps (take i cs) 0 [] st = Inr (pre, o_i, s_i)" and
    q: "rasterize_loop ext face bezierSteps ((cs ! i) # drop (Suc i) cs) o_i [] s_i
          = Inr (post, offset', st')" and
    r: "runs = pre @ post"
    unfolding loop_append by (auto split: sum.splits)
  from q obtain o1 t1 s1 rest where
    a: "addOneCharacter ext face (cs ! i) bezierSteps o_i s_i = Inr (o1, t1, s1)" and
    post: "post = t1 # rest"
    unfolding loop_Cons_Inr by blast
  from p have "length pre = length (take i cs)" by (rule loop_length)
  with assms(2) have "length pre = i" by simp
  with r post have "runs ! i = t1" by (simp add: nth_append)
  with p a show ?thesis by blast
qed

lemma loop_exit:
  assumes "ch \<in> set cs"
    and "\<not> format_is_outline (FT_Load_Glyph face (FT_Get_Char_Index face ch))"
  shows "rasterize_loop ext face bezierSteps cs offset acc st = Inl (ProcessExit 0)"
  using assms(1)
proof (induction cs arbitrary: offset acc st)
  case Nil
  then show ?case by simp
next
  case (Cons c cs)
  show ?case
  proof (cases "addOneCharacter ext face c bezierSteps offset st")
    case (Inl e)
    then have "e = ProcessExit 0" by (simp add: addOneCharacter_Inl)
    with Inl show ?thesis by simp
  next
    case (Inr r)
    then have "format_is_outline (FT_Load_Glyph face (FT_Get_Char_Index face c))"
      by (cases r) (simp add: addOneCharacter_Inr)
    with assms(2) have "c \<noteq> ch" by auto
    with Cons.prems have "ch \<in> set cs" by simp
    from Cons.IH [OF this] Inr show ?thesis by (simp split: prod.splits)
  qed
qed

subsection \<open>Unfolding sets for evaluation\<close>

lemmas demo_defs = demoExt_def probeExt_def demoFont_def demoFace_def demoGlyphs_def
  outlineGlyph_def bitmapGlyph_def square_def boxInside_def probeCDT_def planar_def

lemmas model_defs = addOneCharacter_def contourTriangles_def holesOf_def triangulateContour_def
  emitTri_def Let_def

lemmas post_defs = outlinePostprocess_def find_min_def min_step_def shift_tri_def FLT_MAX_def
  float_round_0 float_round_1 float_round_2 float_round_3 float_round_5 float_round_10

subsection \<open>The entry point, the triangles of a letter, the stand-in triangulator\<close>

lemma rasterizeText_Inr:
  "rasterizeText ext mFace textString fontHeight bezierSteps st = Inr (mesh, st') \<longleftrightarrow>
     (\<exists>raw offset.
        rasterize_loop ext (mFace (push_bit 6 fontHeight) (push_bit 6 fontHeight) 96 96)
          bezierSteps textString 0 [] st = Inr (raw, offset, st')
        \<and> mesh = outlinePostprocess raw)"
  by (auto simp: rasterizeText_def Let_def split: sum.splits)

lemma post_nth:
  "i < length m \<Longrightarrow> outlinePostprocess m ! i = map (shift_tri \<bar>find_min m\<bar>) (m ! i)"
  by (simp add: outlinePostprocess_def Let_def)

lemma fanCDT_points:
  "(p0, p1, p2) \<in> set (fanCDT polyline holes) \<Longrightarrow> {p0, p1, p2} \<subseteq> set polyline"
  by (induction polyline holes rule: fanCDT.induct) auto

lemma demoExt_returns_input_points: "returns_input_points demoExt"
  unfolding returns_input_points_def demoExt_def using fanCDT_points by fastforce

lemma letter_triangle_origin:
  assumes "t \<in> set (concat (map (contourTriangles ext V cursor) [0..<length V]))"
  shows "\<exists>c < length V. GetDirection (V ! c) \<and>
           (\<exists>ot \<in> set (Triangulate ext (triangulateContour V c cursor)
                          (map (\<lambda>cm. triangulateContour V cm cursor) (holesOf ext V c))).
              t = emitTri ot)"
proof -
  from assms obtain c where c: "c < length V" and t: "t \<in> set (contourTriangles ext V cursor c)"
    by auto
  from t have "GetDirection (V ! c)"
    by (auto simp: contourTriangles_def split: if_splits)
  with t c show ?thesis
    by (auto simp: contourTriangles_def Let_def)
qed

lemma polyline_point:
  "p \<in> set (triangulateContour V c cursor) \<Longrightarrow>
     \<exists>d \<in> set (GetPoints (V ! c)). p = (fst d / 64 + cursor, snd d / 64)"
  by (auto simp: triangulateContour_def)

lemma holesOf_bound: "cm \<in> set (holesOf ext V c) \<Longrightarrow> cm < length V"
  by (simp add: holesOf_def)

lemma input_point:
  assumes "c < length V"
    and "p \<in> set (triangulateContour V c cursor)
           \<union> set (concat (map (\<lambda>cm. triangulateContour V cm cursor) (holesOf ext V c)))"
  shows "\<exists>cm < length V. \<exists>d \<in> set (GetPoints (V ! cm)). p = (fst d / 64 + cursor, snd d / 64)"
proof -
  from assms(2) consider "p \<in> set (triangulateContour V c cursor)"
    | cm where "cm \<in> set (holesOf ext V c)" "p \<in> set (triangulateContour V cm cursor)"
    by auto
  then show ?thesis
  proof cases
    case 1
    with assms(1) polyline_point show ?thesis by blast
  next
    case 2
    with holesOf_bound polyline_point show ?thesis by blast
  qed
qed

subsection \<open>Runs on the concrete face\<close>

lemma demo_loop_AV:
  "rasterize_loop demoExt (demoFace 320) 4 ''AV'' 0 [] statics0 =
     Inr ([[planar 0 0 10 0 5 (- 10)], [planar 9 (- 10) 19 (- 10) 14 0]], 19,
          \<lparr>prevCharIndex = 2, curCharIndex = 2, prev_rsb_delta = 0\<rparr>)"
  by (simp add: demo_defs model_defs statics0_def upt_rec)

lemma demo_rasterize_AV:
  "rasterizeText demoExt (demoFont 320) ''AV'' 12 4 statics0 =
     Inr ([[planar 0 10 10 10 5 0], [planar 9 0 19 0 14 10]],
          \<lparr>prevCharIndex = 2, curCharIndex = 2, prev_rsb_delta = 0\<rparr>)"
  by (simp add: rasterizeText_def demo_defs model_defs post_defs statics0_def upt_rec)

lemma demo_rasterize_A_space:
  "rasterizeText demoExt (demoFont 320) ''A '' 12 4 statics0 =
     Inr ([[planar 0 10 10 10 5 0], []],
          \<lparr>prevCharIndex = 4, curCharIndex = 4, prev_rsb_delta = 0\<rparr>)"
  by (simp add: rasterizeText_def demo_defs model_defs post_defs statics0_def upt_rec)

lemma demo_add_A:
  "addOneCharacter demoExt (demoFace 320) CHR ''A'' 4 0 statics0 =
     Inr (10, [planar 0 0 10 0 5 (- 10)],
          \<lparr>prevCharIndex = 1, curCharIndex = 1, prev_rsb_delta = 0\<rparr>)"
  by (simp add: demo_defs model_defs statics0_def upt_rec)

lemma demo_add_A_after_f:
  "addOneCharacter demoExt (demoFace 320) CHR ''A'' 4 10
       \<lparr>prevCharIndex = 8, curCharIndex = 8, prev_rsb_delta = 40\<rparr> =
     Inr (19, [planar 9 0 19 0 14 (- 10)],
          \<lparr>prevCharIndex = 1, curCharIndex = 1, prev_rsb_delta = 0\<rparr>)"
  by (simp add: demo_defs model_defs upt_rec)

lemma demo_add_f:
  "addOneCharacter demoExt (demoFace 320) CHR ''f'' 4 0 statics0 =
     Inr (11, [planar 1 0 11 0 6 (- 10)],
          \<lparr>prevCharIndex = 8, curCharIndex = 8, prev_rsb_delta = 40\<rparr>)"
  by (simp add: demo_defs model_defs statics0_def upt_rec)

lemma demo_contours_at:
  "glyph_contours (demoFace 320) CHR ''@'' 4
     = [square 0 640 True, square 128 512 True, square 256 384 False]"
  by (simp add: glyph_contours_def demoFace_def demoGlyphs_def outlineGlyph_def)

lemma demo_add_bar:
  "addOneCharacter probeExt (demoFace 320) CHR ''|'' 4 0 statics0 =
     Inr (10, [planar 0 0 0 0 0 0, planar 0 (- 10) 0 (- 10) 0 (- 10)],
          \<lparr>prevCharIndex = 7, curCharIndex = 7, prev_rsb_delta = 0\<rparr>)"
  by (simp add: demo_defs model_defs statics0_def upt_rec)

lemma demo_contours_bar:
  "glyph_contours (demoFace 320) CHR ''|'' 4
     = [\<lparr>GetPoints = [(0, 0), (0, 640)], GetDirection = True\<rparr>]"
  by (simp add: glyph_contours_def demoFace_def demoGlyphs_def outlineGlyph_def)

subsection \<open>Non-negative y after normalization\<close>

text \<open>
  C1, as amended. After a successful call every vertex has a y-coordinate of at least 0; and
  when some vertex had a y-coordinate of at most 0 before the normalization (an outline
  point on or above the baseline), some vertex has the y-coordinate 0 afterwards, which is
  then the minimum.
\<close>

theorem rasterizeText_y_nonnegative:
  assumes "rasterizeText ext mFace textString fontHeight bezierSteps st = Inr (mesh, st')"
  shows "\<exists>raw offset.
           rasterize_loop ext (mFace (push_bit 6 fontHeight) (push_bit 6 fontHeight) 96 96)
             bezierSteps textString 0 [] st = Inr (raw, offset, st')
         \<and> mesh = outlinePostprocess raw
         \<and> (\<forall>y \<in> set (mesh_ys mesh). 0 \<le> y)
         \<and> ((\<exists>y \<in> set (mesh_ys raw). y \<le> 0) \<longrightarrow> 0 \<in> set (mesh_ys mesh))"
proof -
  from assms obtain raw offset where
    l: "rasterize_loop ext (mFace (push_bit 6 fontHeight) (push_bit 6 fontHeight) 96 96)
          bezierSteps textString 0 [] st = Inr (raw, offset, st')"
    and m: "mesh = outlinePostprocess raw"
    unfolding rasterizeText_Inr by blast
  have nonneg: "\<forall>y \<in> set (mesh_ys mesh). 0 \<le> y"
    unfolding m by (blast intro: post_nonneg)
  have zero: "(\<exists>y \<in> set (mesh_ys raw). y \<le> 0) \<longrightarrow> 0 \<in> set (mesh_ys mesh)"
    unfolding m by (blast intro: post_zero)
  from l m nonneg zero show ?thesis by blast
qed

theorem rasterizeText_y_nonnegative_witness:
  "rasterizeText demoExt (demoFont 320) ''AV'' 12 4 statics0 =
     Inr ([[planar 0 10 10 10 5 0], [planar 9 0 19 0 14 10]],
          \<lparr>prevCharIndex = 2, curCharIndex = 2, prev_rsb_delta = 0\<rparr>)
   \<and> list_all (\<lambda>y. 0 \<le> y) (mesh_ys [[planar 0 10 10 10 5 0], [planar 9 0 19 0 14 10]])
   \<and> 0 \<in> set (mesh_ys [[planar 0 10 10 10 5 0], [planar 9 0 19 0 14 10]])"
proof -
  note h = demo_rasterize_AV
  from rasterizeText_y_nonnegative [OF h] obtain raw offset where
    l: "rasterize_loop demoExt (demoFont 320 (push_bit 6 12) (push_bit 6 12) 96 96) 4 ''AV'' 0 []
          statics0 = Inr (raw, offset, \<lparr>prevCharIndex = 2, curCharIndex = 2, prev_rsb_delta = 0\<rparr>)"
    and nonneg: "\<forall>y \<in> set (mesh_ys [[planar 0 10 10 10 5 0], [planar 9 0 19 0 14 10]]). 0 \<le> y"
    and zero: "(\<exists>y \<in> set (mesh_ys raw). y \<le> 0)
                 \<longrightarrow> 0 \<in> set (mesh_ys [[planar 0 10 10 10 5 0], [planar 9 0 19 0 14 10]])"
    by blast
  from l have "Inr ([[planar 0 0 10 0 5 (- 10)], [planar 9 (- 10) 19 (- 10) 14 0]], 19,
                    \<lparr>prevCharIndex = 2, curCharIndex = 2, prev_rsb_delta = 0\<rparr>)
                 = (Inr (raw, offset, \<lparr>prevCharIndex = 2, curCharIndex = 2, prev_rsb_delta = 0\<rparr>)
                     :: error + (Tri list list \<times> real \<times> statics))"
    unfolding demoFont_def demo_loop_AV .
  then have "raw = [[planar 0 0 10 0 5 (- 10)], [planar 9 (- 10) 19 (- 10) 14 0]]"
    by simp
  then have "\<exists>y \<in> set (mesh_ys raw). y \<le> 0"
    by (simp add: mesh_ys_def mesh_vertices_def tri_vertices_def planar_def)
  with zero have z: "0 \<in> set (mesh_ys [[planar 0 10 10 10 5 0], [planar 9 0 19 0 14 10]])"
    by blast
  from nonneg have
    "list_all (\<lambda>y. 0 \<le> y) (mesh_ys [[planar 0 10 10 10 5 0], [planar 9 0 19 0 14 10]])"
    unfolding list_all_iff .
  with h z show ?thesis by (intro conjI)
qed

text \<open>
  C1 as stated fails for a string whose outline lies below the baseline: for the glyph of
  \<open>_\<close> the y-coordinates before the normalization are 1, 1, 2, the minimum found is 1, its
  absolute value is added, and the result has the minimum 2.
\<close>

theorem rasterizeText_minimum_not_zero:
  "rasterizeText demoExt (demoFont 320) ''_'' 12 4 statics0 =
     Inr ([[planar 0 2 10 2 10 3]], \<lparr>prevCharIndex = 3, curCharIndex = 3, prev_rsb_delta = 0\<rparr>)
   \<and> mesh_ys [[planar 0 2 10 2 10 3]] = [2, 2, 3]"
  by (simp add: rasterizeText_def demo_defs model_defs post_defs statics0_def upt_rec
        mesh_ys_def mesh_vertices_def tri_vertices_def)

subsection \<open>Two calls in a row\<close>

text \<open>
  C2. The statics of \<open>addOneCharacter\<close> are not reset between calls: the first call of
  \<open>rasterizeText\<close> on \<open>AV\<close> starts from zeroed statics and places \<open>A\<close> at 0; the second call
  with the same arguments starts from the statics the first one left, kerns \<open>A\<close> against the
  \<open>V\<close> that ended the first call, and returns triangles one unit further left.
\<close>

theorem rasterizeText_second_call_differs:
  "rasterizeText demoExt (demoFont 320) ''AV'' 12 4 statics0 =
     Inr ([[planar 0 10 10 10 5 0], [planar 9 0 19 0 14 10]],
          \<lparr>prevCharIndex = 2, curCharIndex = 2, prev_rsb_delta = 0\<rparr>)
   \<and> rasterizeText demoExt (demoFont 320) ''AV'' 12 4
        \<lparr>prevCharIndex = 2, curCharIndex = 2, prev_rsb_delta = 0\<rparr> =
     Inr ([[planar (- 1) 10 9 10 4 0], [planar 8 0 18 0 13 10]],
          \<lparr>prevCharIndex = 2, curCharIndex = 2, prev_rsb_delta = 0\<rparr>)
   \<and> [[planar 0 10 10 10 5 0], [planar 9 0 19 0 14 10]]
       \<noteq> [[planar (- 1) 10 9 10 4 0], [planar 8 0 18 0 13 10]]"
  by (simp add: rasterizeText_def demo_defs model_defs post_defs statics0_def upt_rec)

subsection \<open>A glyph that is not an outline\<close>

text \<open>
  C3, as amended. When the string has a character whose glyph is not in outline format, the
  call returns neither a mesh nor an error: the process is ended by \<open>exit\<close> at the first
  such character.
\<close>

theorem rasterizeText_non_outline_exits:
  assumes "ch \<in> set textString"
    and "\<not> format_is_outline
             (FT_Load_Glyph (mFace (push_bit 6 fontHeight) (push_bit 6 fontHeight) 96 96)
               (FT_Get_Char_Index (mFace (push_bit 6 fontHeight) (push_bit 6 fontHeight) 96 96) ch))"
  shows "\<exists>status. rasterizeText ext mFace textString fontHeight bezierSteps st
                    = Inl (ProcessExit status)"
  using loop_exit [OF assms] by (simp add: rasterizeText_def)

theorem rasterizeText_non_outline_exits_witness:
  "CHR ''#'' \<in> set ''A#V''
   \<and> \<not> format_is_outline
         (FT_Load_Glyph (demoFont 320 (push_bit 6 12) (push_bit 6 12) 96 96)
           (FT_Get_Char_Index (demoFont 320 (push_bit 6 12) (push_bit 6 12) 96 96) CHR ''#''))
   \<and> (\<exists>status. rasterizeText demoExt (demoFont 320) ''A#V'' 12 4 statics0
                    = Inl (ProcessExit status))"
proof -
  have a: "CHR ''#'' \<in> set ''A#V''" by simp
  have b: "\<not> format_is_outline
         (FT_Load_Glyph (demoFont 320 (push_bit 6 12) (push_bit 6 12) 96 96)
           (FT_Get_Char_Index (demoFont 320 (push_bit 6 12) (push_bit 6 12) 96 96) CHR ''#''))"
    by (simp add: demo_defs)
  from a b rasterizeText_non_outline_exits
      [where ch = "CHR ''#''" and textString = "''A#V''" and mFace = "demoFont 320"
         and fontHeight = 12 and ext = demoExt and bezierSteps = 4 and st = statics0]
  show ?thesis by (intro conjI)
qed

text \<open>
  C3 as stated fails: no error reaches the caller. On a string with a bitmap glyph the call
  does not come back, and the process ends with status 0, which reports success.
\<close>

theorem rasterizeText_bitmap_glyph_exits_with_success:
  "rasterizeText demoExt (demoFont 320) ''A#V'' 12 4 statics0 = Inl (ProcessExit 0)
   \<and> \<not> exit_reports_failure (ProcessExit 0)"
  by (simp add: rasterizeText_def demo_defs model_defs statics0_def upt_rec
        exit_reports_failure_def)

subsection \<open>One triangle list per character\<close>

text \<open>
  C4. The empty string gives the empty mesh, on which the normalization changes nothing.
  A successful call returns one triangle list per character of the string, in order: the list
  at index \<open>i\<close> is the normalized list that \<open>addOneCharacter\<close> wrote for character \<open>i\<close>,
  called with the offset and the statics left by the characters before it; it is empty when
  the glyph has no contour.
\<close>

theorem rasterizeText_one_run_per_character:
  assumes face: "face = mFace (push_bit 6 fontHeight) (push_bit 6 fontHeight) 96 96"
  shows "rasterizeText ext mFace [] fontHeight bezierSteps st = Inr ([], st)
    \<and> outlinePostprocess [] = []
    \<and> (rasterizeText ext mFace textString fontHeight bezierSteps st = Inr (mesh, st') \<longrightarrow>
         length mesh = length textString
         \<and> (\<exists>raw offset.
               rasterize_loop ext face bezierSteps textString 0 [] st = Inr (raw, offset, st')
             \<and> (\<forall>i < length textString. \<exists>pre o_i s_i o_i' s_i'.
                   rasterize_loop ext face bezierSteps (take i textString) 0 [] st
                     = Inr (pre, o_i, s_i)
                 \<and> addOneCharacter ext face (textString ! i) bezierSteps o_i s_i
                     = Inr (o_i', raw ! i, s_i')
                 \<and> mesh ! i = map (shift_tri \<bar>find_min raw\<bar>) (raw ! i)
                 \<and> (glyph_contours face (textString ! i) bezierSteps = [] \<longrightarrow> mesh ! i = []))))"
proof (intro conjI impI)
  show "rasterizeText ext mFace [] fontHeight bezierSteps st = Inr ([], st)"
    by (simp add: rasterizeText_def outlinePostprocess_def)
  show "outlinePostprocess [] = []"
    by (simp add: outlinePostprocess_def)
next
  assume r: "rasterizeText ext mFace textString fontHeight bezierSteps st = Inr (mesh, st')"
  then obtain raw offset where
    l: "rasterize_loop ext face bezierSteps textString 0 [] st = Inr (raw, offset, st')"
    and m: "mesh = outlinePostprocess raw"
    unfolding rasterizeText_Inr face by blast
  from l have len: "length raw = length textString" by (rule loop_length)
  with m show "length mesh = length textString" by (simp add: outlinePostprocess_def)
  have "\<exists>pre o_i s_i o_i' s_i'.
           rasterize_loop ext face bezierSteps (take i textString) 0 [] st = Inr (pre, o_i, s_i)
         \<and> addOneCharacter ext face (textString ! i) bezierSteps o_i s_i = Inr (o_i', raw ! i, s_i')
         \<and> mesh ! i = map (shift_tri \<bar>find_min raw\<bar>) (raw ! i)
         \<and> (glyph_contours face (textString ! i) bezierSteps = [] \<longrightarrow> mesh ! i = [])"
    if i: "i < length textString" for i
  proof -
    from loop_nth [OF l i] obtain pre o_i s_i o_i' s_i' where
      p: "rasterize_loop ext face bezierSteps (take i textString) 0 [] st = Inr (pre, o_i, s_i)"
      and a: "addOneCharacter ext face (textString ! i) bezierSteps o_i s_i
                = Inr (o_i', raw ! i, s_i')"
      by blast
    from i len m have n: "mesh ! i = map (shift_tri \<bar>find_min raw\<bar>) (raw ! i)"
      by (simp add: post_nth)
    from a have "glyph_contours face (textString ! i) bezierSteps = [] \<longrightarrow> raw ! i = []"
      by (simp add: addOneCharacter_Inr)
    with n have "glyph_contours face (textString ! i) bezierSteps = [] \<longrightarrow> mesh ! i = []"
      by simp
    with p a n show ?thesis by blast
  qed
  with l show "\<exists>raw offset.
       rasterize_loop ext face bezierSteps textString 0 [] st = Inr (raw, offset, st')
     \<and> (\<forall>i < length textString. \<exists>pre o_i s_i o_i' s_i'.
           rasterize_loop ext face bezierSteps (take i textString) 0 [] st = Inr (pre, o_i, s_i)
         \<and> addOneCharacter ext face (textString ! i) bezierSteps o_i s_i
             = Inr (o_i', raw ! i, s_i')
         \<and> mesh ! i = map (shift_tri \<bar>find_min raw\<bar>) (raw ! i)
         \<and> (glyph_contours face (textString ! i) bezierSteps = [] \<longrightarrow> mesh ! i = []))"
    by blast
qed

theorem rasterizeText_one_run_per_character_witness:
  "rasterizeText demoExt (demoFont 320) ''A '' 12 4 statics0 =
     Inr ([[planar 0 10 10 10 5 0], []],
          \<lparr>prevCharIndex = 4, curCharIndex = 4, prev_rsb_delta = 0\<rparr>)
   \<and> length [[planar 0 10 10 10 5 0], []] = length ''A ''
   \<and> glyph_contours (demoFace 320) (''A '' ! 1) 4 = []
   \<and> [[planar 0 10 10 10 5 0], []] ! 1 = []"
proof -
  have f: "demoFace 320 = demoFont 320 (push_bit 6 12) (push_bit 6 12) 96 96"
    by (simp add: demoFont_def)
  have c: "glyph_contours (demoFace 320) (''A '' ! 1) 4 = []"
    by (simp add: glyph_contours_def demo_defs)
  have i: "(1::nat) < length ''A ''" by simp
  note T = rasterizeText_one_run_per_character
         [where face = "demoFace 320" and mFace = "demoFont 320" and fontHeight = 12
            and ext = demoExt and bezierSteps = 4 and st = statics0 and textString = "''A ''"
            and mesh = "[[planar 0 10 10 10 5 0], []]"
            and st' = "\<lparr>prevCharIndex = 4, curCharIndex = 4, prev_rsb_delta = 0\<rparr>"]
  note U = T [OF f, THEN conjunct2, THEN conjunct2, THEN mp, OF demo_rasterize_A_space]
  from U have len: "length [[planar 0 10 10 10 5 0], []] = length ''A ''"
    by (rule conjunct1)
  from U [THEN conjunct2] obtain raw offset where
    "\<forall>i < length ''A ''. \<exists>pre o_i s_i o_i' s_i'.
        rasterize_loop demoExt (demoFace 320) 4 (take i ''A '') 0 [] statics0 = Inr (pre, o_i, s_i)
      \<and> addOneCharacter demoExt (demoFace 320) (''A '' ! i) 4 o_i s_i = Inr (o_i', raw ! i, s_i')
      \<and> [[planar 0 10 10 10 5 0], []] ! i = map (shift_tri \<bar>find_min raw\<bar>) (raw ! i)
      \<and> (glyph_contours (demoFace 320) (''A '' ! i) 4 = []
            \<longrightarrow> [[planar 0 10 10 10 5 0], []] ! i = [])"
    by (elim exE conjE)
  then have "1 < length ''A '' \<longrightarrow> (\<exists>pre o_i s_i o_i' s_i'.
        rasterize_loop demoExt (demoFace 320) 4 (take 1 ''A '') 0 [] statics0 = Inr (pre, o_i, s_i)
      \<and> addOneCharacter demoExt (demoFace 320) (''A '' ! 1) 4 o_i s_i = Inr (o_i', raw ! 1, s_i')
      \<and> [[planar 0 10 10 10 5 0], []] ! 1 = map (shift_tri \<bar>find_min raw\<bar>) (raw ! 1)
      \<and> (glyph_contours (demoFace 320) (''A '' ! 1) 4 = []
            \<longrightarrow> [[planar 0 10 10 10 5 0], []] ! 1 = []))"
    by (rule spec)
  from this i have "\<exists>pre o_i s_i o_i' s_i'.
        rasterize_loop demoExt (demoFace 320) 4 (take 1 ''A '') 0 [] statics0 = Inr (pre, o_i, s_i)
      \<and> addOneCharacter demoExt (demoFace 320) (''A '' ! 1) 4 o_i s_i = Inr (o_i', raw ! 1, s_i')
      \<and> [[planar 0 10 10 10 5 0], []] ! 1 = map (shift_tri \<bar>find_min raw\<bar>) (raw ! 1)
      \<and> (glyph_contours (demoFace 320) (''A '' ! 1) 4 = []
            \<longrightarrow> [[planar 0 10 10 10 5 0], []] ! 1 = [])"
    by (rule mp)
  then have "glyph_contours (demoFace 320) (''A '' ! 1) 4 = []
            \<longrightarrow> [[planar 0 10 10 10 5 0], []] ! 1 = []"
    by (elim exE conjE)
  from this c have e: "[[planar 0 10 10 10 5 0], []] ! 1 = []" by (rule mp)
  from demo_rasterize_A_space len c e show ?thesis by (intro conjI)
qed

subsection \<open>The coordinates of an emitted vertex\<close>

text \<open>
  C5. Every triangle written for a character is a triangle returned by the triangulator for
  an outer-direction contour of the glyph, whose domain and holes are the contour points
  divided by 64 with the cursor (the offset after the kerning and hinting adjustments) added
  to x; its three vertices are the triangulator's points with y negated and z = 0. When the
  triangulator returns only points it was given, every vertex is
  \<open>(d.x / 64 + cursor, - d.y / 64, 0)\<close> for a point \<open>d\<close> of a contour of the glyph.
\<close>

theorem emitted_vertex_coordinates:
  assumes "addOneCharacter ext face ch bezierSteps offset st = Inr (offset', outTriangles, st')"
    and "t \<in> set outTriangles"
    and V: "V = glyph_contours face ch bezierSteps"
    and cursor: "cursor = glyph_cursor face st ch offset"
  shows "(\<exists>c < length V. GetDirection (V ! c) \<and>
           (\<exists>p0 p1 p2.
              (p0, p1, p2) \<in> set (Triangulate ext
                  (map (\<lambda>d. (fst d / 64 + cursor, snd d / 64)) (GetPoints (V ! c)))
                  (map (\<lambda>cm. map (\<lambda>d. (fst d / 64 + cursor, snd d / 64)) (GetPoints (V ! cm)))
                       (holesOf ext V c)))
            \<and> t = \<lparr>tri_a = \<lparr>vec_x = fst p0, vec_y = - snd p0, vec_z = 0\<rparr>,
                    tri_b = \<lparr>vec_x = fst p1, vec_y = - snd p1, vec_z = 0\<rparr>,
                    tri_c = \<lparr>vec_x = fst p2, vec_y = - snd p2, vec_z = 0\<rparr>\<rparr>))
       \<and> (returns_input_points ext \<longrightarrow>
            (\<forall>v \<in> set (tri_vertices t). \<exists>cm < length V. \<exists>d \<in> set (GetPoints (V ! cm)).
                v = \<lparr>vec_x = fst d / 64 + cursor, vec_y = - (snd d / 64), vec_z = 0\<rparr>))"
proof -
  from assms(1) have "outTriangles = concat (map (contourTriangles ext V cursor) [0..<length V])"
    unfolding addOneCharacter_Inr V cursor by blast
  with assms(2) letter_triangle_origin obtain c ot where
    c: "c < length V" and dir: "GetDirection (V ! c)"
    and ot: "ot \<in> set (Triangulate ext (triangulateContour V c cursor)
                          (map (\<lambda>cm. triangulateContour V cm cursor) (holesOf ext V c)))"
    and t: "t = emitTri ot"
    by blast
  obtain p0 p1 p2 where p: "ot = (p0, p1, p2)" by (cases ot)
  from t p have t': "t = \<lparr>tri_a = \<lparr>vec_x = fst p0, vec_y = - snd p0, vec_z = 0\<rparr>,
                          tri_b = \<lparr>vec_x = fst p1, vec_y = - snd p1, vec_z = 0\<rparr>,
                          tri_c = \<lparr>vec_x = fst p2, vec_y = - snd p2, vec_z = 0\<rparr>\<rparr>"
    by (simp add: emitTri_def)
  from ot p have ot': "(p0, p1, p2) \<in> set (Triangulate ext
                  (map (\<lambda>d. (fst d / 64 + cursor, snd d / 64)) (GetPoints (V ! c)))
                  (map (\<lambda>cm. map (\<lambda>d. (fst d / 64 + cursor, snd d / 64)) (GetPoints (V ! cm)))
                       (holesOf ext V c)))"
    by (simp add: triangulateContour_def)
  have first: "\<exists>c < length V. GetDirection (V ! c) \<and>
           (\<exists>p0 p1 p2.
              (p0, p1, p2) \<in> set (Triangulate ext
                  (map (\<lambda>d. (fst d / 64 + cursor, snd d / 64)) (GetPoints (V ! c)))
                  (map (\<lambda>cm. map (\<lambda>d. (fst d / 64 + cursor, snd d / 64)) (GetPoints (V ! cm)))
                       (holesOf ext V c)))
            \<and> t = \<lparr>tri_a = \<lparr>vec_x = fst p0, vec_y = - snd p0, vec_z = 0\<rparr>,
                    tri_b = \<lparr>vec_x = fst p1, vec_y = - snd p1, vec_z = 0\<rparr>,
                    tri_c = \<lparr>vec_x = fst p2, vec_y = - snd p2, vec_z = 0\<rparr>\<rparr>)"
    using c dir ot' t' by blast
  have second: "\<forall>v \<in> set (tri_vertices t). \<exists>cm < length V. \<exists>d \<in> set (GetPoints (V ! cm)).
                  v = \<lparr>vec_x = fst d / 64 + cursor, vec_y = - (snd d / 64), vec_z = 0\<rparr>"
    if r: "returns_input_points ext"
  proof
    fix v assume "v \<in> set (tri_vertices t)"
    with t' have "v = \<lparr>vec_x = fst p0, vec_y = - snd p0, vec_z = 0\<rparr>
                \<or> v = \<lparr>vec_x = fst p1, vec_y = - snd p1, vec_z = 0\<rparr>
                \<or> v = \<lparr>vec_x = fst p2, vec_y = - snd p2, vec_z = 0\<rparr>"
      by (simp add: tri_vertices_def)
    then obtain p where pin: "p \<in> {p0, p1, p2}"
      and v: "v = \<lparr>vec_x = fst p, vec_y = - snd p, vec_z = 0\<rparr>"
      by blast
    from r ot p have "{p0, p1, p2} \<subseteq> set (triangulateContour V c cursor)
           \<union> set (concat (map (\<lambda>cm. triangulateContour V cm cursor) (holesOf ext V c)))"
      unfolding returns_input_points_def by blast
    with pin have "p \<in> set (triangulateContour V c cursor)
           \<union> set (concat (map (\<lambda>cm. triangulateContour V cm cursor) (holesOf ext V c)))"
      by blast
    from input_point [OF c this] obtain cm d where
      "cm < length V" "d \<in> set (GetPoints (V ! cm))" "p = (fst d / 64 + cursor, snd d / 64)"
      by blast
    with v show "\<exists>cm < length V. \<exists>d \<in> set (GetPoints (V ! cm)).
                  v = \<lparr>vec_x = fst d / 64 + cursor, vec_y = - (snd d / 64), vec_z = 0\<rparr>"
      by auto
  qed
  from first second show ?thesis by blast
qed

theorem emitted_vertex_coordinates_witness:
  "addOneCharacter demoExt (demoFace 320) CHR ''A'' 4 0 statics0 =
     Inr (10, [planar 0 0 10 0 5 (- 10)],
          \<lparr>prevCharIndex = 1, curCharIndex = 1, prev_rsb_delta = 0\<rparr>)
   \<and> planar 0 0 10 0 5 (- 10) \<in> set [planar 0 0 10 0 5 (- 10)]
   \<and> returns_input_points demoExt
   \<and> list_all
         (\<lambda>v. \<exists>cm < length (glyph_contours (demoFace 320) CHR ''A'' 4).
           \<exists>d \<in> set (GetPoints (glyph_contours (demoFace 320) CHR ''A'' 4 ! cm)).
             v = \<lparr>vec_x = fst d / 64 + glyph_cursor (demoFace 320) statics0 CHR ''A'' 0,
                   vec_y = - (snd d / 64), vec_z = 0\<rparr>)
         (tri_vertices (planar 0 0 10 0 5 (- 10)))"
proof -
  have m: "planar 0 0 10 0 5 (- 10) \<in> set [planar 0 0 10 0 5 (- 10)]" by simp
  note T = emitted_vertex_coordinates [OF demo_add_A m refl refl]
  from T [THEN conjunct2] demoExt_returns_input_points
  have "\<forall>v \<in> set (tri_vertices (planar 0 0 10 0 5 (- 10))).
         \<exists>cm < length (glyph_contours (demoFace 320) CHR ''A'' 4).
           \<exists>d \<in> set (GetPoints (glyph_contours (demoFace 320) CHR ''A'' 4 ! cm)).
             v = \<lparr>vec_x = fst d / 64 + glyph_cursor (demoFace 320) statics0 CHR ''A'' 0,
                   vec_y = - (snd d / 64), vec_z = 0\<rparr>"
    by (rule mp)
  then have "list_all
         (\<lambda>v. \<exists>cm < length (glyph_contours (demoFace 320) CHR ''A'' 4).
           \<exists>d \<in> set (GetPoints (glyph_contours (demoFace 320) CHR ''A'' 4 ! cm)).
             v = \<lparr>vec_x = fst d / 64 + glyph_cursor (demoFace 320) statics0 CHR ''A'' 0,
                   vec_y = - (snd d / 64), vec_z = 0\<rparr>)
         (tri_vertices (planar 0 0 10 0 5 (- 10)))"
    unfolding list_all_iff .
  with demo_add_A m demoExt_returns_input_points show ?thesis by (intro conjI)
qed

subsection \<open>The hinting correction\<close>

text \<open>
  C6. With \<open>d\<close> the previous glyph's right-side-bearing delta (the static
  \<open>prev_rsb_delta\<close>) minus the current glyph's left-side-bearing delta: when \<open>d \<ge> 32\<close> the
  glyph is placed, and the returned offset computed, with the offset lowered by 1; when
  \<open>d < -32\<close>, raised by 1; otherwise unchanged. Afterwards \<open>prev_rsb_delta\<close> holds the
  current glyph's right-side-bearing delta.
\<close>

theorem addOneCharacter_hinting:
  assumes "addOneCharacter ext face ch bezierSteps offset st = Inr (offset', outTriangles, st')"
    and d: "d = prev_rsb_delta st - lsb_delta (FT_Load_Glyph face (FT_Get_Char_Index face ch))"
    and V: "V = glyph_contours face ch bezierSteps"
    and k: "kerned = offset + kerning_adjust face st ch"
  shows "(d \<ge> 32 \<longrightarrow>
            offset' = kerned - 1 + advance_width face ch
          \<and> outTriangles = concat (map (contourTriangles ext V (kerned - 1)) [0..<length V]))
       \<and> (d < - 32 \<longrightarrow>
            offset' = kerned + 1 + advance_width face ch
          \<and> outTriangles = concat (map (contourTriangles ext V (kerned + 1)) [0..<length V]))
       \<and> (- 32 \<le> d \<and> d < 32 \<longrightarrow>
            offset' = kerned + advance_width face ch
          \<and> outTriangles = concat (map (contourTriangles ext V kerned) [0..<length V]))
       \<and> prev_rsb_delta st' = rsb_delta (FT_Load_Glyph face (FT_Get_Char_Index face ch))"
  using assms(1) unfolding addOneCharacter_Inr d V k
  by (simp add: glyph_cursor_def hinting_nudge_def next_statics_def Let_def)

theorem addOneCharacter_hinting_witness:
  "(40::int) \<ge> 32
   \<and> addOneCharacter demoExt (demoFace 320) CHR ''A'' 4 10
        \<lparr>prevCharIndex = 8, curCharIndex = 8, prev_rsb_delta = 40\<rparr> =
      Inr (19, [planar 9 0 19 0 14 (- 10)],
           \<lparr>prevCharIndex = 1, curCharIndex = 1, prev_rsb_delta = 0\<rparr>)
   \<and> (19::real) = 10 - 1 + advance_width (demoFace 320) CHR ''A''
   \<and> (- 40::int) < - 32
   \<and> addOneCharacter demoExt (demoFace 320) CHR ''f'' 4 0 statics0 =
      Inr (11, [planar 1 0 11 0 6 (- 10)],
           \<lparr>prevCharIndex = 8, curCharIndex = 8, prev_rsb_delta = 40\<rparr>)
   \<and> (11::real) = 0 + 1 + advance_width (demoFace 320) CHR ''f''
   \<and> - 32 \<le> (0::int) \<and> (0::int) < 32
   \<and> addOneCharacter demoExt (demoFace 320) CHR ''A'' 4 0 statics0 =
      Inr (10, [planar 0 0 10 0 5 (- 10)],
           \<lparr>prevCharIndex = 1, curCharIndex = 1, prev_rsb_delta = 0\<rparr>)
   \<and> (10::real) = 0 + advance_width (demoFace 320) CHR ''A''"
proof -
  have d1: "(40::int) = prev_rsb_delta \<lparr>prevCharIndex = 8, curCharIndex = 8, prev_rsb_delta = 40\<rparr>
              - lsb_delta (FT_Load_Glyph (demoFace 320) (FT_Get_Char_Index (demoFace 320) CHR ''A''))"
    by (simp add: demo_defs)
  have k1: "(10::real) = 10 + kerning_adjust (demoFace 320)
              \<lparr>prevCharIndex = 8, curCharIndex = 8, prev_rsb_delta = 40\<rparr> CHR ''A''"
    by (simp add: kerning_adjust_def demo_defs)
  have d2: "(- 40::int) = prev_rsb_delta statics0
              - lsb_delta (FT_Load_Glyph (demoFace 320) (FT_Get_Char_Index (demoFace 320) CHR ''f''))"
    by (simp add: demo_defs statics0_def)
  have k2: "(0::real) = 0 + kerning_adjust (demoFace 320) statics0 CHR ''f''"
    by (simp add: kerning_adjust_def demo_defs statics0_def)
  have d3: "(0::int) = prev_rsb_delta statics0
              - lsb_delta (FT_Load_Glyph (demoFace 320) (FT_Get_Char_Index (demoFace 320) CHR ''A''))"
    by (simp add: demo_defs statics0_def)
  have k3: "(0::real) = 0 + kerning_adjust (demoFace 320) statics0 CHR ''A''"
    by (simp add: kerning_adjust_def demo_defs statics0_def)
  have g1: "(40::int) \<ge> 32" and g2: "(- 40::int) < - 32" and g3: "- 32 \<le> (0::int) \<and> (0::int) < 32"
    by simp_all
  from addOneCharacter_hinting [OF demo_add_A_after_f d1 refl k1] g1
  have r1: "(19::real) = 10 - 1 + advance_width (demoFace 320) CHR ''A''" by blast
  from addOneCharacter_hinting [OF demo_add_f d2 refl k2] g2
  have r2: "(11::real) = 0 + 1 + advance_width (demoFace 320) CHR ''f''" by blast
  from addOneCharacter_hinting [OF demo_add_A d3 refl k3] g3
  have r3: "(10::real) = 0 + advance_width (demoFace 320) CHR ''A''" by blast
  from g1 demo_add_A_after_f r1 g2 demo_add_f r2 g3 demo_add_A r3 show ?thesis
    by (intro conjI) simp_all
qed

subsection \<open>Which holes an outer contour gets\<close>

text \<open>
  C7, as amended. The holes added to the triangulation of an outer-direction contour are the
  hole-direction contours of the glyph that the inside test places in it, each once: a hole
  is attached to every outer contour that contains it, and to no other.
\<close>

theorem holes_attached_to_every_containing_outer:
  assumes "c < length V" and "GetDirection (V ! c)"
  shows "set (holesOf ext V c)
           = {cm. cm < length V \<and> \<not> GetDirection (V ! cm) \<and> IsInside ext (V ! cm) (V ! c)}
       \<and> distinct (holesOf ext V c)
       \<and> contourTriangles ext V offset c
           = map emitTri (Triangulate ext (triangulateContour V c offset)
                 (map (\<lambda>cm. triangulateContour V cm offset) (holesOf ext V c)))"
proof -
  from assms(2) have "set (holesOf ext V c)
           = {cm. cm < length V \<and> \<not> GetDirection (V ! cm) \<and> IsInside ext (V ! cm) (V ! c)}"
    by (auto simp: holesOf_def)
  moreover have "distinct (holesOf ext V c)"
    by (simp add: holesOf_def)
  moreover from assms(2) have "contourTriangles ext V offset c
           = map emitTri (Triangulate ext (triangulateContour V c offset)
                 (map (\<lambda>cm. triangulateContour V cm offset) (holesOf ext V c)))"
    by (simp add: contourTriangles_def)
  ultimately show ?thesis by blast
qed

theorem holes_attached_to_every_containing_outer_witness:
  "(0::nat) < length (glyph_contours (demoFace 320) CHR ''@'' 4)
   \<and> GetDirection (glyph_contours (demoFace 320) CHR ''@'' 4 ! 0)
   \<and> set (holesOf demoExt (glyph_contours (demoFace 320) CHR ''@'' 4) 0) = {2}
   \<and> {cm. cm < length (glyph_contours (demoFace 320) CHR ''@'' 4)
          \<and> \<not> GetDirection (glyph_contours (demoFace 320) CHR ''@'' 4 ! cm)
          \<and> IsInside demoExt (glyph_contours (demoFace 320) CHR ''@'' 4 ! cm)
               (glyph_contours (demoFace 320) CHR ''@'' 4 ! 0)} = {2}"
proof -
  let ?V = "glyph_contours (demoFace 320) CHR ''@'' 4"
  have a: "(0::nat) < length ?V" by (simp add: demo_contours_at)
  have b: "GetDirection (?V ! 0)" by (simp add: demo_contours_at square_def)
  have h: "holesOf demoExt ?V 0 = [2]"
    by (simp add: demo_contours_at holesOf_def demoExt_def boxInside_def square_def upt_rec)
  from holes_attached_to_every_containing_outer [OF a b, of demoExt 0]
  have s: "set (holesOf demoExt ?V 0)
           = {cm. cm < length ?V \<and> \<not> GetDirection (?V ! cm)
                 \<and> IsInside demoExt (?V ! cm) (?V ! 0)}"
    by (rule conjunct1)
  from h have h': "set (holesOf demoExt ?V 0) = {2}" by simp
  from s h' have "{cm. cm < length ?V \<and> \<not> GetDirection (?V ! cm)
                 \<and> IsInside demoExt (?V ! cm) (?V ! 0)} = {2}"
    by (rule subst)
  with a b h' show ?thesis by (intro conjI)
qed

text \<open>
  C7 as stated fails: no area is compared. In the glyph with an outer square of side 10
  units, an outer square of side 6 inside it and a hole of side 2 inside both, the hole
  (contour 2) is attached to the larger outer contour 0 as well as to the smaller contour 1.
\<close>

theorem hole_attached_to_larger_outer:
  "glyph_contours (demoFace 320) CHR ''@'' 4
     = [square 0 640 True, square 128 512 True, square 256 384 False]
   \<and> IsInside demoExt (square 256 384 False) (square 0 640 True)
   \<and> IsInside demoExt (square 256 384 False) (square 128 512 True)
   \<and> contour_area (square 128 512 True) < contour_area (square 0 640 True)
   \<and> holesOf demoExt (glyph_contours (demoFace 320) CHR ''@'' 4) 0 = [2]
   \<and> holesOf demoExt (glyph_contours (demoFace 320) CHR ''@'' 4) 1 = [2]"
  by (simp add: glyph_contours_def demoFace_def demoGlyphs_def outlineGlyph_def holesOf_def
        demoExt_def boxInside_def square_def contour_area_def upt_rec)

subsection \<open>Contours of fewer than three points\<close>

text \<open>
  C8, as amended. No contour is skipped for its number of points: for every outer-direction
  contour of the glyph, whatever its length, the triangulator is called with its points as
  the domain and with the points of every contour of \<open>holesOf\<close> as a hole, whatever
  their lengths, and every triangle the triangulator returns is written to the character's
  triangles.
\<close>

theorem every_outer_contour_is_triangulated:
  assumes "addOneCharacter ext face ch bezierSteps offset st = Inr (offset', outTriangles, st')"
    and V: "V = glyph_contours face ch bezierSteps"
    and cursor: "cursor = glyph_cursor face st ch offset"
    and "c < length V" and "GetDirection (V ! c)"
    and "ot \<in> set (Triangulate ext
                  (map (\<lambda>d. (fst d / 64 + cursor, snd d / 64)) (GetPoints (V ! c)))
                  (map (\<lambda>cm. map (\<lambda>d. (fst d / 64 + cursor, snd d / 64)) (GetPoints (V ! cm)))
                       (holesOf ext V c)))"
  shows "emitTri ot \<in> set outTriangles"
proof -
  from assms(1) have o: "outTriangles = concat (map (contourTriangles ext V cursor) [0..<length V])"
    unfolding addOneCharacter_Inr V cursor by blast
  from assms(5,6) have "emitTri ot \<in> set (contourTriangles ext V cursor c)"
    by (simp add: contourTriangles_def triangulateContour_def)
  with assms(4) show ?thesis unfolding o by auto
qed

theorem every_outer_contour_is_triangulated_witness:
  "addOneCharacter probeExt (demoFace 320) CHR ''|'' 4 0 statics0 =
     Inr (10, [planar 0 0 0 0 0 0, planar 0 (- 10) 0 (- 10) 0 (- 10)],
          \<lparr>prevCharIndex = 7, curCharIndex = 7, prev_rsb_delta = 0\<rparr>)
   \<and> (0::nat) < length (glyph_contours (demoFace 320) CHR ''|'' 4)
   \<and> GetDirection (glyph_contours (demoFace 320) CHR ''|'' 4 ! 0)
   \<and> length (GetPoints (glyph_contours (demoFace 320) CHR ''|'' 4 ! 0)) = 2
   \<and> ((0, 10), (0, 10), (0, 10)) \<in> set (Triangulate probeExt [(0, 0), (0, 10)] [])
   \<and> emitTri ((0, 10), (0, 10), (0, 10))
        \<in> set [planar 0 0 0 0 0 0, planar 0 (- 10) 0 (- 10) 0 (- 10)]"
proof -
  let ?V = "glyph_contours (demoFace 320) CHR ''|'' 4"
  let ?cursor = "glyph_cursor (demoFace 320) statics0 CHR ''|'' 0"
  have a: "(0::nat) < length ?V" by (simp add: demo_contours_bar)
  have b: "GetDirection (?V ! 0)" by (simp add: demo_contours_bar)
  have n: "length (GetPoints (?V ! 0)) = 2" by (simp add: demo_contours_bar)
  have t: "((0, 10), (0, 10), (0, 10)) \<in> set (Triangulate probeExt [(0, 0), (0, 10)] [])"
    by (simp add: probeExt_def probeCDT_def)
  have cur: "?cursor = 0"
    by (simp add: glyph_cursor_def kerning_adjust_def hinting_nudge_def demo_defs statics0_def)
  have dom: "map (\<lambda>d. (fst d / 64 + ?cursor, snd d / 64)) (GetPoints (?V ! 0)) = [(0, 0), (0, 10)]"
    unfolding cur by (simp add: demo_contours_bar)
  have holes: "map (\<lambda>cm. map (\<lambda>d. (fst d / 64 + ?cursor, snd d / 64)) (GetPoints (?V ! cm)))
                 (holesOf probeExt ?V 0) = []"
    by (simp add: demo_contours_bar holesOf_def)
  from t have t': "((0, 10), (0, 10), (0, 10)) \<in> set (Triangulate probeExt
                  (map (\<lambda>d. (fst d / 64 + ?cursor, snd d / 64)) (GetPoints (?V ! 0)))
                  (map (\<lambda>cm. map (\<lambda>d. (fst d / 64 + ?cursor, snd d / 64)) (GetPoints (?V ! cm)))
                       (holesOf probeExt ?V 0)))"
    unfolding dom holes .
  from every_outer_contour_is_triangulated [OF demo_add_bar refl refl a b t']
  have "emitTri ((0, 10), (0, 10), (0, 10))
          \<in> set [planar 0 0 0 0 0 0, planar 0 (- 10) 0 (- 10) 0 (- 10)]" .
  with demo_add_bar a b n t show ?thesis by (intro conjI)
qed

text \<open>
  C8 as stated fails: the glyph of \<open>|\<close> has one outer-direction contour of two points;
  it is passed to the triangulator as a domain, and with a triangulator that returns a
  triangle for each point it is given the character has two triangles, made of those two
  points.
\<close>

theorem two_point_contour_is_triangulated:
  "glyph_contours (demoFace 320) CHR ''|'' 4
     = [\<lparr>GetPoints = [(0, 0), (0, 640)], GetDirection = True\<rparr>]
   \<and> contourTriangles probeExt (glyph_contours (demoFace 320) CHR ''|'' 4) 0 0
       = map emitTri (Triangulate probeExt [(0, 0), (0, 10)] [])
   \<and> addOneCharacter probeExt (demoFace 320) CHR ''|'' 4 0 statics0 =
       Inr (10, [planar 0 0 0 0 0 0, planar 0 (- 10) 0 (- 10) 0 (- 10)],
            \<lparr>prevCharIndex = 7, curCharIndex = 7, prev_rsb_delta = 0\<rparr>)"
  by (simp add: glyph_contours_def demo_defs model_defs statics0_def upt_rec)

subsection \<open>The final cursor\<close>

text \<open>
  C9, as amended. The value returned by a successful call is the normalized triangle lists
  and nothing else. The offset the loop ends with is the sum, over the characters, of the
  kerning adjustment, the hinting nudge and the advance width; it is a local of
  \<open>rasterizeText\<close> and is dropped at the return.
\<close>

theorem rasterizeText_returns_mesh_only:
  assumes "rasterizeText ext mFace textString fontHeight bezierSteps st = Inr (mesh, st')"
    and face: "face = mFace (push_bit 6 fontHeight) (push_bit 6 fontHeight) 96 96"
  shows "\<exists>raw offset.
           rasterize_loop ext face bezierSteps textString 0 [] st = Inr (raw, offset, st')
         \<and> offset = total_advance face st textString
         \<and> mesh = outlinePostprocess raw"
proof -
  from assms(1) obtain raw offset where
    l: "rasterize_loop ext face bezierSteps textString 0 [] st = Inr (raw, offset, st')"
    and m: "mesh = outlinePostprocess raw"
    unfolding rasterizeText_Inr face by blast
  from loop_total_advance [OF l] have "offset = total_advance face st textString" by simp
  with l m show ?thesis by blast
qed

theorem rasterizeText_returns_mesh_only_witness:
  "rasterizeText demoExt (demoFont 320) ''AV'' 12 4 statics0 =
     Inr ([[planar 0 10 10 10 5 0], [planar 9 0 19 0 14 10]],
          \<lparr>prevCharIndex = 2, curCharIndex = 2, prev_rsb_delta = 0\<rparr>)
   \<and> total_advance (demoFace 320) statics0 ''AV'' = 19"
proof -
  have f: "demoFace 320 = demoFont 320 (push_bit 6 12) (push_bit 6 12) 96 96"
    by (simp add: demoFont_def)
  from rasterizeText_returns_mesh_only
         [where face = "demoFace 320" and mFace = "demoFont 320" and fontHeight = 12
            and ext = demoExt and bezierSteps = 4 and st = statics0 and textString = "''AV''"]
       demo_rasterize_AV f
  obtain raw offset where
    l: "rasterize_loop demoExt (demoFace 320) 4 ''AV'' 0 [] statics0
          = Inr (raw, offset, \<lparr>prevCharIndex = 2, curCharIndex = 2, prev_rsb_delta = 0\<rparr>)"
    and t: "offset = total_advance (demoFace 320) statics0 ''AV''"
    by blast
  from l have "Inr ([[planar 0 0 10 0 5 (- 10)], [planar 9 (- 10) 19 (- 10) 14 0]], 19,
                    \<lparr>prevCharIndex = 2, curCharIndex = 2, prev_rsb_delta = 0\<rparr>)
                 = (Inr (raw, offset, \<lparr>prevCharIndex = 2, curCharIndex = 2, prev_rsb_delta = 0\<rparr>)
                     :: error + (Tri list list \<times> real \<times> statics))"
    unfolding demo_loop_AV .
  then have "offset = 19" by simp
  with t demo_rasterize_AV show ?thesis by simp
qed

text \<open>
  C9 as stated fails: the final cursor is not part of what the call returns. With a space
  that advances 5 units and with one that advances 7, the call on a single space returns the
  same value, while the loop ended at offset 5 in one run and at 7 in the other.
\<close>

theorem rasterizeText_hides_final_cursor:
  "rasterizeText demoExt (demoFont 320) '' '' 12 4 statics0 =
     Inr ([[]], \<lparr>prevCharIndex = 4, curCharIndex = 4, prev_rsb_delta = 0\<rparr>)
   \<and> rasterizeText demoExt (demoFont 448) '' '' 12 4 statics0 =
     Inr ([[]], \<lparr>prevCharIndex = 4, curCharIndex = 4, prev_rsb_delta = 0\<rparr>)
   \<and> rasterize_loop demoExt (demoFont 320 (push_bit 6 12) (push_bit 6 12) 96 96) 4 '' '' 0 []
        statics0 = Inr ([[]], 5, \<lparr>prevCharIndex = 4, curCharIndex = 4, prev_rsb_delta = 0\<rparr>)
   \<and> rasterize_loop demoExt (demoFont 448 (push_bit 6 12) (push_bit 6 12) 96 96) 4 '' '' 0 []
        statics0 = Inr ([[]], 7, \<lparr>prevCharIndex = 4, curCharIndex = 4, prev_rsb_delta = 0\<rparr>)"
  by (simp add: rasterizeText_def demo_defs model_defs post_defs statics0_def upt_rec)

subsection \<open>The normalization is a vertical translation, up to rounding\<close>

lemma float_round_tie_normal: "float_round (16777217 / 16777216) = 1"
  using float_round_tie by simp

text \<open>
  C10, as amended. The normalization keeps the number of characters and the number of
  triangles of each character, keeps every x- and z-coordinate, and replaces every
  y-coordinate by the single-precision sum of it and one constant, the absolute value of the
  minimum found. The new y-coordinate is within half a unit in the last place of the exact
  sum; the difference of the y-coordinates of two vertices is kept exactly when the sums of
  both are floats, and otherwise up to that rounding.
\<close>

theorem outlinePostprocess_uniform_translation:
  "\<exists>k. k = \<bar>find_min m\<bar>
     \<and> length (outlinePostprocess m) = length m
     \<and> (\<forall>i < length m.
           length (outlinePostprocess m ! i) = length (m ! i)
         \<and> (\<forall>j < length (m ! i).
               map vec_x (tri_vertices (outlinePostprocess m ! i ! j))
                 = map vec_x (tri_vertices (m ! i ! j))
             \<and> map vec_z (tri_vertices (outlinePostprocess m ! i ! j))
                 = map vec_z (tri_vertices (m ! i ! j))
             \<and> map vec_y (tri_vertices (outlinePostprocess m ! i ! j))
                 = map (\<lambda>y. float_round (y + k)) (map vec_y (tri_vertices (m ! i ! j)))))
     \<and> length (mesh_vertices (outlinePostprocess m)) = length (mesh_vertices m)
     \<and> (\<forall>p < length (mesh_vertices m).
           \<bar>vec_y (mesh_vertices (outlinePostprocess m) ! p) - (vec_y (mesh_vertices m ! p) + k)\<bar>
             \<le> 2 powi (float_exponent \<bar>vec_y (mesh_vertices m ! p) + k\<bar> - 23) / 2)
     \<and> (\<forall>p < length (mesh_vertices m). \<forall>q < length (mesh_vertices m).
           float_round (vec_y (mesh_vertices m ! p) + k) = vec_y (mesh_vertices m ! p) + k
         \<and> float_round (vec_y (mesh_vertices m ! q) + k) = vec_y (mesh_vertices m ! q) + k
         \<longrightarrow> vec_y (mesh_vertices (outlinePostprocess m) ! p)
               - vec_y (mesh_vertices (outlinePostprocess m) ! q)
             = vec_y (mesh_vertices m ! p) - vec_y (mesh_vertices m ! q))"
proof -
  let ?k = "\<bar>find_min m\<bar>"
  have a: "length (outlinePostprocess m) = length m"
    by (simp add: outlinePostprocess_def)
  have b: "\<forall>i < length m.
           length (outlinePostprocess m ! i) = length (m ! i)
         \<and> (\<forall>j < length (m ! i).
               map vec_x (tri_vertices (outlinePostprocess m ! i ! j))
                 = map vec_x (tri_vertices (m ! i ! j))
             \<and> map vec_z (tri_vertices (outlinePostprocess m ! i ! j))
                 = map vec_z (tri_vertices (m ! i ! j))
             \<and> map vec_y (tri_vertices (outlinePostprocess m ! i ! j))
                 = map (\<lambda>y. float_round (y + ?k)) (map vec_y (tri_vertices (m ! i ! j))))"
    by (simp add: post_nth tri_vertices_def shift_tri_def)
  have ys: "map vec_y (mesh_vertices (outlinePostprocess m))
              = map (\<lambda>y. float_round (y + ?k)) (map vec_y (mesh_vertices m))"
    using mesh_ys_post [of m] by (simp add: mesh_ys_def)
  from ys have c: "length (mesh_vertices (outlinePostprocess m)) = length (mesh_vertices m)"
    by (metis length_map)
  have d: "vec_y (mesh_vertices (outlinePostprocess m) ! p)
             = float_round (vec_y (mesh_vertices m ! p) + ?k)"
    if "p < length (mesh_vertices m)" for p
  proof -
    from that c have "vec_y (mesh_vertices (outlinePostprocess m) ! p)
                        = map vec_y (mesh_vertices (outlinePostprocess m)) ! p" by simp
    also from that have "\<dots> = float_round (vec_y (mesh_vertices m ! p) + ?k)"
      unfolding ys by simp
    finally show ?thesis .
  qed
  have e: "\<forall>p < length (mesh_vertices m).
           \<bar>vec_y (mesh_vertices (outlinePostprocess m) ! p) - (vec_y (mesh_vertices m ! p) + ?k)\<bar>
             \<le> 2 powi (float_exponent \<bar>vec_y (mesh_vertices m ! p) + ?k\<bar> - 23) / 2"
    using float_round_error by (simp add: d)
  have f: "\<forall>p < length (mesh_vertices m). \<forall>q < length (mesh_vertices m).
           float_round (vec_y (mesh_vertices m ! p) + ?k) = vec_y (mesh_vertices m ! p) + ?k
         \<and> float_round (vec_y (mesh_vertices m ! q) + ?k) = vec_y (mesh_vertices m ! q) + ?k
         \<longrightarrow> vec_y (mesh_vertices (outlinePostprocess m) ! p)
               - vec_y (mesh_vertices (outlinePostprocess m) ! q)
             = vec_y (mesh_vertices m ! p) - vec_y (mesh_vertices m ! q)"
    by (simp add: d)
  from a b c e f show ?thesis by (intro exI [of _ ?k] conjI refl)
qed

theorem outlinePostprocess_uniform_translation_witness:
  "\<exists>k. k = 1
     \<and> length (outlinePostprocess [[planar 0 (- 1) 1 2 3 4]]) = 1
     \<and> length (outlinePostprocess [[planar 0 (- 1) 1 2 3 4]] ! 0) = 1
     \<and> map vec_x (tri_vertices (outlinePostprocess [[planar 0 (- 1) 1 2 3 4]] ! 0 ! 0)) = [0, 1, 3]
     \<and> map vec_z (tri_vertices (outlinePostprocess [[planar 0 (- 1) 1 2 3 4]] ! 0 ! 0)) = [0, 0, 0]
     \<and> map vec_y (tri_vertices (outlinePostprocess [[planar 0 (- 1) 1 2 3 4]] ! 0 ! 0))
         = map (\<lambda>y. float_round (y + k)) [- 1, 2, 4]
     \<and> float_round (4 + k) = 4 + k
     \<and> float_round (- 1 + k) = - 1 + k
     \<and> vec_y (mesh_vertices (outlinePostprocess [[planar 0 (- 1) 1 2 3 4]]) ! 2)
         - vec_y (mesh_vertices (outlinePostprocess [[planar 0 (- 1) 1 2 3 4]]) ! 0) = 5"
proof -
  let ?m = "[[planar 0 (- 1) 1 2 3 4]]"
  have v: "mesh_vertices ?m = tri_vertices (planar 0 (- 1) 1 2 3 4)"
    by (simp add: mesh_vertices_def)
  have t: "tri_vertices (planar 0 (- 1) 1 2 3 4)
             = [\<lparr>vec_x = 0, vec_y = - 1, vec_z = 0\<rparr>, \<lparr>vec_x = 1, vec_y = 2, vec_z = 0\<rparr>,
                \<lparr>vec_x = 3, vec_y = 4, vec_z = 0\<rparr>]"
    by (simp add: tri_vertices_def planar_def)
  have fm: "\<bar>find_min ?m\<bar> = 1"
    by (simp add: find_min_def min_step_def FLT_MAX_def planar_def)
  from outlinePostprocess_uniform_translation [of ?m] obtain k where
    k: "k = \<bar>find_min ?m\<bar>
     \<and> length (outlinePostprocess ?m) = length ?m
     \<and> (\<forall>i < length ?m.
           length (outlinePostprocess ?m ! i) = length (?m ! i)
         \<and> (\<forall>j < length (?m ! i).
               map vec_x (tri_vertices (outlinePostprocess ?m ! i ! j))
                 = map vec_x (tri_vertices (?m ! i ! j))
             \<and> map vec_z (tri_vertices (outlinePostprocess ?m ! i ! j))
                 = map vec_z (tri_vertices (?m ! i ! j))
             \<and> map vec_y (tri_vertices (outlinePostprocess ?m ! i ! j))
                 = map (\<lambda>y. float_round (y + k)) (map vec_y (tri_vertices (?m ! i ! j)))))
     \<and> length (mesh_vertices (outlinePostprocess ?m)) = length (mesh_vertices ?m)
     \<and> (\<forall>p < length (mesh_vertices ?m).
           \<bar>vec_y (mesh_vertices (outlinePostprocess ?m) ! p) - (vec_y (mesh_vertices ?m ! p) + k)\<bar>
             \<le> 2 powi (float_exponent \<bar>vec_y (mesh_vertices ?m ! p) + k\<bar> - 23) / 2)
     \<and> (\<forall>p < length (mesh_vertices ?m). \<forall>q < length (mesh_vertices ?m).
           float_round (vec_y (mesh_vertices ?m ! p) + k) = vec_y (mesh_vertices ?m ! p) + k
         \<and> float_round (vec_y (mesh_vertices ?m ! q) + k) = vec_y (mesh_vertices ?m ! q) + k
         \<longrightarrow> vec_y (mesh_vertices (outlinePostprocess ?m) ! p)
               - vec_y (mesh_vertices (outlinePostprocess ?m) ! q)
             = vec_y (mesh_vertices ?m ! p) - vec_y (mesh_vertices ?m ! q))"
    by (elim exE)
  from k fm have k1: "k = 1" by simp
  have r2: "float_round (4 + k) = 4 + k" and r0: "float_round (- 1 + k) = - 1 + k"
    unfolding k1 by (simp_all add: float_round_0 float_round_5)
  from k have frame: "length (outlinePostprocess ?m) = 1
     \<and> length (outlinePostprocess ?m ! 0) = 1
     \<and> map vec_x (tri_vertices (outlinePostprocess ?m ! 0 ! 0)) = [0, 1, 3]
     \<and> map vec_z (tri_vertices (outlinePostprocess ?m ! 0 ! 0)) = [0, 0, 0]
     \<and> map vec_y (tri_vertices (outlinePostprocess ?m ! 0 ! 0))
         = map (\<lambda>y. float_round (y + k)) [- 1, 2, 4]"
    by (simp add: t)
  from k have "\<forall>p < length (mesh_vertices ?m). \<forall>q < length (mesh_vertices ?m).
           float_round (vec_y (mesh_vertices ?m ! p) + k) = vec_y (mesh_vertices ?m ! p) + k
         \<and> float_round (vec_y (mesh_vertices ?m ! q) + k) = vec_y (mesh_vertices ?m ! q) + k
         \<longrightarrow> vec_y (mesh_vertices (outlinePostprocess ?m) ! p)
               - vec_y (mesh_vertices (outlinePostprocess ?m) ! q)
             = vec_y (mesh_vertices ?m ! p) - vec_y (mesh_vertices ?m ! q)"
    by (elim conjE)
  with r2 r0 have diff: "vec_y (mesh_vertices (outlinePostprocess ?m) ! 2)
         - vec_y (mesh_vertices (outlinePostprocess ?m) ! 0) = 5"
    by (simp add: v t)
  from k1 frame r2 r0 diff show ?thesis by (intro exI [of _ k]) simp
qed

text \<open>
  C10 as stated fails: the sum is rounded to single precision. With the y-coordinates -1, 0
  and \<open>2^-24\<close> the constant is 1, and \<open>1 + 2^-24\<close> lies halfway between the floats 1
  and \<open>1 + 2^-23\<close>, so it is rounded to 1: the third and the second vertex differed by
  \<open>2^-24\<close> before the normalization and have the same y-coordinate after it.
\<close>

theorem outlinePostprocess_changes_a_difference:
  "mesh_ys [[planar 0 (- 1) 1 0 0 (1 / 16777216)]] = [- 1, 0, 1 / 16777216]
   \<and> mesh_ys (outlinePostprocess [[planar 0 (- 1) 1 0 0 (1 / 16777216)]]) = [0, 1, 1]"
  by (simp add: post_defs planar_def mesh_ys_def mesh_vertices_def tri_vertices_def
        float_round_tie_normal)

end
